theory Spec2Isabelle
  imports Main "HOL-Library.Word" "HOL-Library.AList"
begin

section \<open>The etcdraft ordering chain: data model\<close>

text \<open>
  A shallow embedding of \<^verbatim>\<open>orderer/consensus/etcdraft/util.go\<close> and
  \<^verbatim>\<open>orderer/consensus/etcdraft/chain.go\<close>.

  Go's \<^verbatim>\<open>uint64\<close> is \<open>64 word\<close> (arithmetic wraps around), a byte slice used as a
  map key (\<^verbatim>\<open>string(c.ClientTlsCert)\<close>) is a \<open>string\<close>, a pointer that the code
  tests against \<^verbatim>\<open>nil\<close> or may receive as \<^verbatim>\<open>nil\<close> is an \<open>option\<close>.
  A Go map \<^verbatim>\<open>map[uint64]*Consenter\<close> is an association list with pairwise distinct
  keys; the order of the list is the order in which one \<^verbatim>\<open>range\<close> loop visits the
  map, which Go leaves unspecified, so every theorem below holds for every order.
  A run-time panic (a nil dereference, \<^verbatim>\<open>logger.Panicf\<close>) is a value of type
  \<open>panic\<close>, an error return a value of type \<open>error\<close>.
\<close>

type_synonym u64 = "64 word"
type_synonym bytes = string

record Consenter =
  Host :: string
  Port :: "32 word"
  ClientTlsCert :: bytes
  ServerTlsCert :: bytes

record BlockMetadata =
  Consenters :: "(u64 \<times> Consenter) list"
  NextConsenterId :: u64
  RaftIndex :: u64

datatype ConfChangeType =
  ConfChangeAddNode | ConfChangeRemoveNode | ConfChangeUpdateNode | ConfChangeAddLearnerNode

record ConfChange =
  Type :: ConfChangeType
  NodeID :: u64

record MembershipChanges =
  NewBlockMetadata :: BlockMetadata
  AddedNodes :: "Consenter list"
  RemovedNodes :: "Consenter list"
  ConfChange :: "ConfChange option"
  RotatedNode :: u64

datatype panic =
  NilPointerDereference
  | BlockOutOfOrder
  | BadConfigHeader
  | BadConsensusMetadata
  | IllegalConfigurationChange
  | ConfigureCommFailed
  | UnexpectedConfigType
  | UnsupportedConfChange
  | BadLastConfigIndex
  | CreatePullerFailed
  | WriteBlockFailed
  | CatchUpFailed
  | CloseOfClosedChannel

datatype error =
  NilMetadata
  | NilConsenter
  | DuplicateConsenter bytes bytes
  | MoreThanOneConsenterChange nat nat
  | InvalidPEMBlock
  | ErrNotInChannel
  | ErrForbidden
  | OtherError

section \<open>Membership changes (util.go)\<close>

text \<open>\<^verbatim>\<open>Changed\<close> and \<^verbatim>\<open>Rotated\<close> of \<^verbatim>\<open>MembershipChanges\<close>.\<close>

definition Changed :: "MembershipChanges \<Rightarrow> bool" where
  "Changed mc = (length (AddedNodes mc) > 0 \<or> length (RemovedNodes mc) > 0)"

definition Rotated :: "MembershipChanges \<Rightarrow> bool" where
  "Rotated mc = (length (AddedNodes mc) = 1 \<and> length (RemovedNodes mc) = 1)"

text \<open>
  \<^verbatim>\<open>MembershipByCert\<close>: the set of client TLS certificates of a consenter map.
  \<^verbatim>\<open>ConsentersToMap\<close>: the same for a slice of consenter pointers; reading the
  certificate of a nil pointer panics.
\<close>

definition MembershipByCert :: "(u64 \<times> Consenter) list \<Rightarrow> bytes set" where
  "MembershipByCert consenters = set (map (\<lambda>(nodeID, c). ClientTlsCert c) consenters)"

fun ConsentersToMap :: "Consenter option list \<Rightarrow> panic + bytes set" where
  "ConsentersToMap [] = Inr {}"
| "ConsentersToMap (None # cs) = Inl NilPointerDereference"
| "ConsentersToMap (Some c # cs) =
     (case ConsentersToMap cs of
        Inl p \<Rightarrow> Inl p
      | Inr s \<Rightarrow> Inr (insert (ClientTlsCert c) s))"

text \<open>
  The first loop of \<^verbatim>\<open>ComputeMembershipChanges\<close>: every new consenter whose client
  certificate is not among the current ones is appended to \<^verbatim>\<open>AddedNodes\<close>.
\<close>

fun added_loop :: "bytes set \<Rightarrow> Consenter option list \<Rightarrow> Consenter list \<Rightarrow> panic + Consenter list" where
  "added_loop currentConsentersSet [] added = Inr added"
| "added_loop currentConsentersSet (None # cs) added = Inl NilPointerDereference"
| "added_loop currentConsentersSet (Some c # cs) added =
     added_loop currentConsentersSet cs
       (if ClientTlsCert c \<in> currentConsentersSet then added else added @ [c])"

text \<open>
  The second loop: every old consenter whose client certificate is not among the new
  ones is appended to \<^verbatim>\<open>RemovedNodes\<close>, and \<^verbatim>\<open>deletedNodeID\<close> is overwritten
  with its raft id.
\<close>

fun removed_loop :: "bytes set \<Rightarrow> (u64 \<times> Consenter) list \<Rightarrow> Consenter list \<times> u64 \<Rightarrow> Consenter list \<times> u64" where
  "removed_loop newConsentersSet [] acc = acc"
| "removed_loop newConsentersSet ((nodeID, c) # rest) (removed, deletedNodeID) =
     removed_loop newConsentersSet rest
       (if ClientTlsCert c \<in> newConsentersSet then (removed, deletedNodeID)
        else (removed @ [c], nodeID))"

definition ComputeMembershipChanges ::
    "BlockMetadata \<Rightarrow> Consenter option list \<Rightarrow> panic + error + MembershipChanges" where
  "ComputeMembershipChanges oldMetadata newConsenters =
     (case added_loop (MembershipByCert (Consenters oldMetadata)) newConsenters [] of
        Inl p \<Rightarrow> Inl p
      | Inr added \<Rightarrow>
          (case ConsentersToMap newConsenters of
             Inl p \<Rightarrow> Inl p
           | Inr newConsentersSet \<Rightarrow>
               (case removed_loop newConsentersSet (Consenters oldMetadata) ([], 0) of
                  (removed, deletedNodeID) \<Rightarrow>
                    (let result = \<lparr> NewBlockMetadata = oldMetadata, AddedNodes = added,
                                     RemovedNodes = removed, ConfChange = None, RotatedNode = 0 \<rparr>
                     in if length added = 1 \<and> length removed = 1 then
                          Inr (Inr (result
                            \<lparr> RotatedNode := deletedNodeID,
                              NewBlockMetadata := oldMetadata
                                \<lparr> Consenters :=
                                    AList.update deletedNodeID (added ! 0) (Consenters oldMetadata) \<rparr> \<rparr>))
                        else if length added = 1 \<and> length removed = 0 then
                          (let nodeID = NextConsenterId oldMetadata in
                           Inr (Inr (result
                             \<lparr> NewBlockMetadata := oldMetadata
                                 \<lparr> Consenters :=
                                     AList.update nodeID (added ! 0) (Consenters oldMetadata),
                                   NextConsenterId := NextConsenterId oldMetadata + 1 \<rparr>,
                               ConfChange := Some \<lparr> Type = ConfChangeAddNode, NodeID = nodeID \<rparr> \<rparr>)))
                        else if length added = 0 \<and> length removed = 1 then
                          (let nodeID = deletedNodeID in
                           Inr (Inr (result
                             \<lparr> ConfChange := Some \<lparr> Type = ConfChangeRemoveNode, NodeID = nodeID \<rparr>,
                               NewBlockMetadata := oldMetadata
                                 \<lparr> Consenters := AList.delete nodeID (Consenters oldMetadata) \<rparr> \<rparr>)))
                        else if length added = 0 \<and> length removed = 0 then
                          Inr (Inr result)
                        else
                          Inr (Inl (MoreThanOneConsenterChange (length added) (length removed)))))))"

text \<open>
  The spec's words for the two differences (section 4.3): \<^emph>\<open>added\<close> are the consenters
  of the new list that are not keyed, by client certificate, in the old metadata;
  \<^emph>\<open>removed\<close> are the entries of the old map (raft id and consenter) that are not keyed
  in the new list. The theorems compare the loops of the code with these.
\<close>

definition added_by_cert :: "BlockMetadata \<Rightarrow> Consenter list \<Rightarrow> Consenter list" where
  "added_by_cert oldMetadata new =
     filter (\<lambda>c. ClientTlsCert c \<notin> ClientTlsCert ` snd ` set (Consenters oldMetadata)) new"

definition removed_by_cert :: "BlockMetadata \<Rightarrow> Consenter list \<Rightarrow> (u64 \<times> Consenter) list" where
  "removed_by_cert oldMetadata new =
     filter (\<lambda>(nodeID, c). ClientTlsCert c \<notin> ClientTlsCert ` set new) (Consenters oldMetadata)"


section \<open>Config metadata and blocks\<close>

text \<open>
  \<^verbatim>\<open>etcdraft.ConfigMetadata\<close>: the consenters of a channel configuration, a slice of
  pointers (\<^verbatim>\<open>MetadataHasDuplication\<close> tests each against nil), and the options, of
  which the chain reads \<^verbatim>\<open>SnapshotInterval\<close> only.
\<close>

record ConfigOptions =
  SnapshotInterval :: "32 word"

record ConfigMetadata =
  ConfigConsenters :: "Consenter option list"
  Options :: "ConfigOptions option"

text \<open>
  The second loop of \<^verbatim>\<open>MetadataHasDuplication\<close>: \<open>seen\<close> holds the certificates of
  the consenters visited so far, server and client certificates alike.
\<close>

fun duplication_loop :: "bytes set \<Rightarrow> Consenter list \<Rightarrow> error option" where
  "duplication_loop seen [] = None"
| "duplication_loop seen (consenter # rest) =
     (let serverKey = ServerTlsCert consenter;
          clientKey = ClientTlsCert consenter;
          duplicateServerCert = (serverKey \<in> seen);
          duplicateClientCert = (clientKey \<in> seen)
      in if duplicateServerCert \<or> duplicateClientCert
         then Some (DuplicateConsenter serverKey clientKey)
         else duplication_loop (insert clientKey (insert serverKey seen)) rest)"

text \<open>
  \<^verbatim>\<open>MetadataHasDuplication\<close>; the result \<open>None\<close> is Go's nil error. The first loop
  returns at a nil consenter, so the second one reads non-nil pointers only.
\<close>

definition MetadataHasDuplication :: "ConfigMetadata option \<Rightarrow> error option" where
  "MetadataHasDuplication md =
     (case md of
        None \<Rightarrow> Some NilMetadata
      | Some m \<Rightarrow>
          if None \<in> set (ConfigConsenters m) then Some NilConsenter
          else duplication_loop {} (map the (ConfigConsenters m)))"

text \<open>The certificates of one consenter slot.\<close>

definition certs :: "Consenter \<Rightarrow> bytes set" where
  "certs c = {ServerTlsCert c, ClientTlsCert c}"


text \<open>
  A block, as the chain reads it. \<open>Number\<close> is \<^verbatim>\<open>Header.Number\<close>. The codecs of
  \<^verbatim>\<open>protos/utils\<close> and \<^verbatim>\<open>common/configtx\<close> are outside these sources, so a
  block carries what they return on it: \<open>IsConfigBlock\<close> is \<^verbatim>\<open>utils.IsConfigBlock\<close>,
  \<open>ChannelHeaderType\<close> the type of the channel header of the first envelope
  (\<^verbatim>\<open>utils.ExtractEnvelope\<close>, then \<^verbatim>\<open>utils.ChannelHeader\<close>) or the error of the two,
  \<open>ConfigUpdateMetadata\<close> the consensus metadata of the config update in the
  envelope (nil when the update does not write \<^verbatim>\<open>ConsensusType\<close>), or the error of
  the decoders on the way, and \<open>LastConfigIndex\<close> is
  \<^verbatim>\<open>utils.GetLastConfigIndexFromBlock\<close>.
\<close>

datatype HeaderType = HeaderType_CONFIG | HeaderType_ORDERER_TRANSACTION | HeaderType_OTHER

record Block =
  Number :: u64
  IsConfigBlock :: bool
  ChannelHeaderType :: "error + HeaderType"
  ConfigUpdateMetadata :: "error + ConfigMetadata option"
  LastConfigIndex :: "error + u64"

text \<open>\<^verbatim>\<open>ConfigChannelHeader\<close>, \<^verbatim>\<open>ConfigEnvelopeFromBlock\<close> (the envelope itself is not
  kept, only whether it is found) and \<^verbatim>\<open>ConsensusMetadataFromConfigBlock\<close>.\<close>

definition ConfigChannelHeader :: "Block \<Rightarrow> error + HeaderType" where
  "ConfigChannelHeader block = ChannelHeaderType block"

definition ConfigEnvelopeFromBlock :: "Block \<Rightarrow> error + unit" where
  "ConfigEnvelopeFromBlock block =
     (case ChannelHeaderType block of
        Inl e \<Rightarrow> Inl e
      | Inr HeaderType_ORDERER_TRANSACTION \<Rightarrow> Inr ()
      | Inr HeaderType_CONFIG \<Rightarrow> Inr ()
      | Inr HeaderType_OTHER \<Rightarrow> Inl OtherError)"

definition ConsensusMetadataFromConfigBlock :: "Block \<Rightarrow> error + ConfigMetadata option" where
  "ConsensusMetadataFromConfigBlock block =
     (if \<not> IsConfigBlock block then Inl OtherError
      else case ConfigEnvelopeFromBlock block of
             Inl e \<Rightarrow> Inl e
           | Inr u \<Rightarrow> ConfigUpdateMetadata block)"

section \<open>The ledger block puller (util.go)\<close>

text \<open>
  \<^verbatim>\<open>LedgerBlockPuller\<close>: \<open>Height\<close> is the value \<^verbatim>\<open>Height()\<close> returns,
  \<open>BlockRetriever\<close> is \<^verbatim>\<open>BlockRetriever.Block\<close> (the local ledger) and
  \<open>BlockPuller\<close> is \<^verbatim>\<open>BlockPuller.PullBlock\<close> (the remote puller). The result of
  \<^verbatim>\<open>PullBlock\<close> says which of the two was called.
\<close>

record LedgerBlockPuller =
  Height :: u64
  BlockRetriever :: "u64 \<Rightarrow> Block option"
  BlockPuller :: "u64 \<Rightarrow> Block option"

datatype block_source = FromLedger | FromRemotePuller

definition PullBlock :: "LedgerBlockPuller \<Rightarrow> u64 \<Rightarrow> block_source \<times> Block option" where
  "PullBlock ledgerPuller seq =
     (let lastSeq = Height ledgerPuller - 1
      in if lastSeq \<ge> seq then (FromLedger, BlockRetriever ledgerPuller seq)
         else (FromRemotePuller, BlockPuller ledgerPuller seq))"

section \<open>The eviction suspector (util.go)\<close>

text \<open>
  \<^verbatim>\<open>raftpb.ConfState\<close> and \<^verbatim>\<open>raftpb.Snapshot\<close>. The data of a snapshot is a byte
  slice; the chain only marshals blocks into it and unmarshals blocks from it, so it is
  either the bytes of a block or bytes that do not unmarshal.
\<close>

record ConfState =
  Nodes :: "u64 list"
  Learners :: "u64 list"

record SnapshotMetadata =
  SnapConfState :: ConfState
  Index :: u64
  Term :: u64

datatype block_bytes = MarshalledBlock Block | NotABlock

record Snapshot =
  Data :: block_bytes
  Metadata :: SnapshotMetadata

definition MarshalOrPanic :: "Block \<Rightarrow> block_bytes" where
  "MarshalOrPanic block = MarshalledBlock block"

definition UnmarshalBlock :: "block_bytes \<Rightarrow> error + Block" where
  "UnmarshalBlock data = (case data of MarshalledBlock b \<Rightarrow> Inr b | NotABlock \<Rightarrow> Inl OtherError)"

text \<open>The zero value of \<^verbatim>\<open>raftpb.SnapshotMetadata\<close>.\<close>

definition zero_SnapshotMetadata :: SnapshotMetadata where
  "zero_SnapshotMetadata = \<lparr> SnapConfState = \<lparr> Nodes = [], Learners = [] \<rparr>, Index = 0, Term = 0 \<rparr>"

text \<open>
  A \<^verbatim>\<open>BlockPuller\<close> as the suspector uses it: \<open>pullBlock\<close> is its method
  \<^verbatim>\<open>PullBlock\<close> (nil when the block cannot be pulled), and \<open>pullLastConfigBlock\<close> is what
  \<^verbatim>\<open>cluster.PullLastConfigBlock\<close>, which is outside these sources, returns on it.
\<close>

record puller =
  pullBlock :: "u64 \<Rightarrow> Block option"
  pullLastConfigBlock :: "error + Block"

text \<open>
  What the suspector does to the rest of the system, in order: the calls of its function
  fields. A write is recorded when it succeeded.
\<close>

datatype es_event =
  EvCreatePuller
  | EvPullLastConfigBlock
  | EvHalt
  | EvPullBlock u64
  | EvWriteBlock "Block option"
  | EvTriggerCatchUp Snapshot

text \<open>
  \<^verbatim>\<open>evictionSuspector\<close>. \<^verbatim>\<open>time.Duration\<close> is a signed integer that is only
  compared. The function fields are what the calls return: \<open>createPuller\<close> the puller
  or an error, \<open>height\<close> the ledger height, \<open>amIInChannel\<close> the error of the
  membership predicate (\<open>None\<close> is nil), \<open>writeBlock\<close> the error of appending a
  block, which may depend on everything done before. \<^verbatim>\<open>halt\<close> and
  \<^verbatim>\<open>triggerCatchUp\<close> return nothing and are events.
\<close>

record evictionSuspector =
  evictionSuspicionThreshold :: int
  createPuller :: "error + puller"
  height :: u64
  amIInChannel :: "Block \<Rightarrow> error option"
  writeBlock :: "es_event list \<Rightarrow> Block option \<Rightarrow> error option"
  halted :: bool

text \<open>
  The loop at the end of \<^verbatim>\<open>confirmSuspicion\<close>:
  \<^verbatim>\<open>for seq := nextBlock; seq <= lastConfigBlock.Header.Number; seq++\<close>. The counter
  wraps around, so the loop does not end when the bound is the largest \<^verbatim>\<open>uint64\<close>
  and no write fails; not returning is the value \<open>None\<close>. A failed write panics.
\<close>

partial_function (option) eviction_pull_loop ::
    "evictionSuspector \<Rightarrow> puller \<Rightarrow> u64 \<Rightarrow> u64 \<Rightarrow> es_event list \<Rightarrow> (panic option \<times> es_event list) option" where
  "eviction_pull_loop es p seq lastNumber events =
     (if seq \<le> lastNumber then
        (let block = pullBlock p seq;
             events1 = events @ [EvPullBlock seq]
         in case writeBlock es events1 block of
              Some err \<Rightarrow> Some (Some WriteBlockFailed, events1)
            | None \<Rightarrow> eviction_pull_loop es p (seq + 1) lastNumber (events1 @ [EvWriteBlock block]))
      else Some (None, events))"

text \<open>
  \<^verbatim>\<open>confirmSuspicion\<close>. The result is the panic, if any, the suspector afterwards and
  the events in order.
\<close>

definition confirmSuspicion ::
    "evictionSuspector \<Rightarrow> int \<Rightarrow> (panic option \<times> evictionSuspector \<times> es_event list) option" where
  "confirmSuspicion es cumulativeSuspicion =
     (if evictionSuspicionThreshold es > cumulativeSuspicion \<or> halted es then Some (None, es, [])
      else case createPuller es of
        Inl err \<Rightarrow> Some (Some CreatePullerFailed, es, [EvCreatePuller])
      | Inr p \<Rightarrow>
          (case pullLastConfigBlock p of
             Inl err \<Rightarrow> Some (None, es, [EvCreatePuller, EvPullLastConfigBlock])
           | Inr lastConfigBlock \<Rightarrow>
               (let h = height es in
                if Number lastConfigBlock + 1 \<le> h
                then Some (None, es, [EvCreatePuller, EvPullLastConfigBlock])
                else
                  (let err = amIInChannel es lastConfigBlock in
                   if err \<noteq> Some ErrNotInChannel \<and> err \<noteq> Some ErrForbidden
                   then Some (None, es,
                          [EvCreatePuller, EvPullLastConfigBlock,
                           EvTriggerCatchUp \<lparr> Data = MarshalOrPanic lastConfigBlock,
                                              Metadata = zero_SnapshotMetadata \<rparr>])
                   else
                     (case eviction_pull_loop es p h (Number lastConfigBlock)
                             [EvCreatePuller, EvPullLastConfigBlock, EvHalt] of
                        None \<Rightarrow> None
                      | Some (pn, events) \<Rightarrow> Some (pn, es \<lparr> halted := True \<rparr>, events))))))"

text \<open>
  The same loop body over an explicit list of sequence numbers: the reference the loop is
  compared with.
\<close>

fun pull_and_write :: "evictionSuspector \<Rightarrow> puller \<Rightarrow> u64 list \<Rightarrow> es_event list \<Rightarrow> panic option \<times> es_event list" where
  "pull_and_write es p [] events = (None, events)"
| "pull_and_write es p (seq # seqs) events =
     (let block = pullBlock p seq;
          events1 = events @ [EvPullBlock seq]
      in case writeBlock es events1 block of
           Some err \<Rightarrow> (Some WriteBlockFailed, events1)
         | None \<Rightarrow> pull_and_write es p seqs (events1 @ [EvWriteBlock block]))"

text \<open>The sequence numbers from \<open>a\<close> through \<open>b\<close> inclusive, in order.\<close>

definition seq_range :: "u64 \<Rightarrow> u64 \<Rightarrow> u64 list" where
  "seq_range a b = map word_of_nat [unat a ..< Suc (unat b)]"

section \<open>The chain (chain.go)\<close>

text \<open>
  \<^verbatim>\<open>raft.StateType\<close> and \<^verbatim>\<open>raft.SoftState\<close>, the migration state of the shared
  config, and \<^verbatim>\<open>cluster.RemoteNode\<close> (the endpoint is kept as host and port).
\<close>

datatype StateType = StateFollower | StateCandidate | StateLeader | StatePreCandidate

record SoftState =
  Lead :: u64
  RaftState :: StateType

datatype MigrationState =
  MIG_STATE_NONE | MIG_STATE_START | MIG_STATE_COMMIT | MIG_STATE_ABORT | MIG_STATE_CONTEXT

record RemoteNode =
  ID :: u64
  Endpoint :: "string \<times> 32 word"
  ServerTLSCert :: bytes
  ClientTLSCert :: bytes

text \<open>
  What the chain does to the ledger (\<^verbatim>\<open>support.WriteBlock\<close> and
  \<^verbatim>\<open>support.WriteConfigBlock\<close>; the encoded metadata is kept as the metadata, nil as
  \<open>None\<close>) and to the other components around it, in order. A goroutine the chain
  starts is an event.
\<close>

datatype ledger_write =
  WriteBlock Block "BlockMetadata option"
  | WriteConfigBlock Block "BlockMetadata option"

datatype chain_event =
  Configure string "RemoteNode list"
  | ProposeConfChange ConfChange
  | NodeStart bool bool bool
  | GoGc
  | GoServeRequest
  | GoProposeBlocks nat
  | CancelProp nat
  | CutBatch
  | PeriodicCheckerRun
  | PeriodicCheckerStop
  | CreatePuller
  | PullerPullBlock u64
  | PullerClose
  | ObserveSoftState SoftState

text \<open>
  What the code outside these sources returns to the chain: \<^verbatim>\<open>pem.Decode\<close>, the
  height of the ledger, the capabilities and the migration state of the shared config,
  and the configuration state of the raft node
  (\<^verbatim>\<open>c.Node.ApplyConfChange(raftpb.ConfChange{})\<close>).
\<close>

record environment =
  pem_Decode :: "bytes \<Rightarrow> bytes option"
  support_Height :: u64
  Kafka2RaftMigration :: bool
  IsSystemChannel :: bool
  ConsensusMigrationState :: MigrationState
  Node_ConfState :: ConfState

text \<open>
  \<^verbatim>\<open>Chain\<close>. A channel of type \<^verbatim>\<open>chan struct{}\<close> is an index into \<open>channels\<close>,
  which holds for each channel made so far whether it has been closed. Metrics and the
  logger are left out.
\<close>

record Chain =
  raftID :: u64
  channelID :: string
  lastKnownLeader :: u64
  channels :: "bool list"
  startC :: nat
  doneC :: nat
  errorC :: nat
  confChangeInProgress :: "ConfChange option"
  justElected :: bool
  configInflight :: bool
  blockInflight :: int
  lastBlock :: Block
  appliedIndex :: u64
  sizeLimit :: "32 word"
  accDataSize :: "32 word"
  lastSnapBlockNum :: u64
  confState :: ConfState
  Chain_createPuller :: "error + puller"
  fresh :: bool
  opts_BlockMetadata :: BlockMetadata
  opts_MaxInflightMsgs :: int
  env :: environment
  ledger :: "ledger_write list"
  effects :: "chain_event list"

type_synonym 'a result = "(panic \<times> Chain) + 'a"

text \<open>Channels: a receive from a closed channel succeeds at once; closing a closed (or
  nil) channel panics.\<close>

definition chan_closed :: "Chain \<Rightarrow> nat \<Rightarrow> bool" where
  "chan_closed c ch = (ch < length (channels c) \<and> channels c ! ch)"

definition close_chan :: "Chain \<Rightarrow> nat \<Rightarrow> Chain result" where
  "close_chan c ch =
     (if ch < length (channels c) \<and> \<not> channels c ! ch
      then Inr (c \<lparr> channels := (channels c)[ch := True] \<rparr>)
      else Inl (CloseOfClosedChannel, c))"

definition make_chan :: "Chain \<Rightarrow> nat \<times> Chain" where
  "make_chan c = (length (channels c), c \<lparr> channels := channels c @ [False] \<rparr>)"

subsection \<open>Configuring the communication\<close>

definition pemToDER :: "Chain \<Rightarrow> bytes \<Rightarrow> error + bytes" where
  "pemToDER c pemBytes =
     (case pem_Decode (env c) pemBytes of
        None \<Rightarrow> Inl InvalidPEMBlock
      | Some bl \<Rightarrow> Inr bl)"

fun remotePeers_loop :: "Chain \<Rightarrow> (u64 \<times> Consenter) list \<Rightarrow> RemoteNode list \<Rightarrow> error + RemoteNode list" where
  "remotePeers_loop c [] nodes = Inr nodes"
| "remotePeers_loop c ((rid, consenter) # rest) nodes =
     (if rid = raftID c then remotePeers_loop c rest nodes
      else case pemToDER c (ServerTlsCert consenter) of
        Inl err \<Rightarrow> Inl err
      | Inr serverCertAsDER \<Rightarrow>
          (case pemToDER c (ClientTlsCert consenter) of
             Inl err \<Rightarrow> Inl err
           | Inr clientCertAsDER \<Rightarrow>
               remotePeers_loop c rest
                 (nodes @ [\<lparr> ID = rid, Endpoint = (Host consenter, Port consenter),
                             ServerTLSCert = serverCertAsDER, ClientTLSCert = clientCertAsDER \<rparr>])))"

definition remotePeers :: "Chain \<Rightarrow> error + RemoteNode list" where
  "remotePeers c = remotePeers_loop c (Consenters (opts_BlockMetadata c)) []"

definition configureComm :: "Chain \<Rightarrow> error + Chain" where
  "configureComm c =
     (case remotePeers c of
        Inl err \<Rightarrow> Inl err
      | Inr nodes \<Rightarrow> Inr (c \<lparr> effects := effects c @ [Configure (channelID c) nodes] \<rparr>))"

subsection \<open>Writing blocks\<close>

text \<open>\<^verbatim>\<open>newConfigMetadata\<close> and \<^verbatim>\<open>detectConfChange\<close>; the latter returns nil when the
  config block carries no consensus metadata.\<close>

definition newConfigMetadata :: "Block \<Rightarrow> panic + ConfigMetadata option" where
  "newConfigMetadata block =
     (case ConsensusMetadataFromConfigBlock block of
        Inl err \<Rightarrow> Inl BadConsensusMetadata
      | Inr metadata \<Rightarrow> Inr metadata)"

definition detectConfChange :: "Chain \<Rightarrow> Block \<Rightarrow> (Chain \<times> MembershipChanges option) result" where
  "detectConfChange c block =
     (case newConfigMetadata block of
        Inl p \<Rightarrow> Inl (p, c)
      | Inr None \<Rightarrow> Inr (c, None)
      | Inr (Some configMetadata) \<Rightarrow>
          (let c1 = (case Options configMetadata of
                       None \<Rightarrow> c
                     | Some opt \<Rightarrow>
                         if SnapshotInterval opt \<noteq> 0 then c \<lparr> sizeLimit := SnapshotInterval opt \<rparr>
                         else c)
           in case ComputeMembershipChanges (opts_BlockMetadata c1) (ConfigConsenters configMetadata) of
                Inl p \<Rightarrow> Inl (p, c1)
              | Inr (Inl err) \<Rightarrow> Inl (IllegalConfigurationChange, c1)
              | Inr (Inr changes) \<Rightarrow> Inr (c1, Some changes)))"

text \<open>\<^verbatim>\<open>writeConfigBlock\<close>. The proposal of the \<^verbatim>\<open>ConfChange\<close> runs in a goroutine
  of its own and is an event.\<close>

definition writeConfigBlock :: "Chain \<Rightarrow> Block \<Rightarrow> u64 \<Rightarrow> Chain result" where
  "writeConfigBlock c block index =
     (case ConfigChannelHeader block of
        Inl err \<Rightarrow> Inl (BadConfigHeader, c)
      | Inr hdr \<Rightarrow>
          (let c1 = c \<lparr> configInflight := False \<rparr> in
           case hdr of
             HeaderType_CONFIG \<Rightarrow>
               (case detectConfChange c1 block of
                  Inl pc \<Rightarrow> Inl pc
                | Inr (c2, configMembership) \<Rightarrow>
                    (let md = (case configMembership of
                                 None \<Rightarrow> opts_BlockMetadata c2
                               | Some mc \<Rightarrow> NewBlockMetadata mc) \<lparr> RaftIndex := index \<rparr>;
                         c3 = c2 \<lparr> opts_BlockMetadata := md \<rparr>;
                         c4 = c3 \<lparr> ledger := ledger c3 @ [WriteConfigBlock block (Some md)] \<rparr>
                     in case configMembership of
                          None \<Rightarrow> Inr c4
                        | Some mc \<Rightarrow>
                            (case ConfChange mc of
                               Some cc \<Rightarrow>
                                 (let c5 = c4 \<lparr> effects := effects c4 @ [ProposeConfChange cc],
                                                confChangeInProgress := Some cc \<rparr>
                                  in if Type cc = ConfChangeAddNode \<or> Type cc = ConfChangeRemoveNode
                                     then Inr (c5 \<lparr> configInflight := True \<rparr>)
                                     else Inl (UnsupportedConfChange, c5))
                             | None \<Rightarrow>
                                 if Rotated mc then
                                   (case configureComm c4 of
                                      Inl err \<Rightarrow> Inl (ConfigureCommFailed, c4)
                                    | Inr c5 \<Rightarrow> Inr c5)
                                 else Inr c4)))
           | HeaderType_ORDERER_TRANSACTION \<Rightarrow>
               (let md = (opts_BlockMetadata c1) \<lparr> RaftIndex := index \<rparr>
                in Inr (c1 \<lparr> opts_BlockMetadata := md,
                             ledger := ledger c1 @ [WriteConfigBlock block (Some md)] \<rparr>))
           | HeaderType_OTHER \<Rightarrow> Inl (UnexpectedConfigType, c1)))"

text \<open>\<^verbatim>\<open>Chain.writeBlock\<close>.\<close>

definition Chain_writeBlock :: "Chain \<Rightarrow> Block \<Rightarrow> u64 \<Rightarrow> Chain result" where
  "Chain_writeBlock c block index =
     (if Number block > Number (lastBlock c) + 1 then Inl (BlockOutOfOrder, c)
      else if Number block < Number (lastBlock c) + 1 then Inr c
      else
        (let c1 = (if blockInflight c > 0 then c \<lparr> blockInflight := blockInflight c - 1 \<rparr> else c);
             c2 = c1 \<lparr> lastBlock := block \<rparr>
         in if IsConfigBlock block then writeConfigBlock c2 block index
            else
              (let md = (opts_BlockMetadata c2) \<lparr> RaftIndex := index \<rparr>
               in Inr (c2 \<lparr> opts_BlockMetadata := md,
                            ledger := ledger c2 @ [WriteBlock block (Some md)] \<rparr>))))"

subsection \<open>Catching up with a snapshot\<close>

text \<open>
  The body of the loop of \<^verbatim>\<open>catchUp\<close> for one pulled block: write it, and for a
  config block that changes the consenters adopt the new metadata and reconfigure the
  communication.
\<close>

definition catchUp_block :: "Chain \<Rightarrow> Block \<Rightarrow> Chain result" where
  "catchUp_block c block =
     (if IsConfigBlock block then
        (let c1 = c \<lparr> ledger := ledger c @ [WriteConfigBlock block None] \<rparr> in
         case detectConfChange c1 block of
           Inl pc \<Rightarrow> Inl pc
         | Inr (c2, configMembership) \<Rightarrow>
             (case configMembership of
                None \<Rightarrow> Inr (c2 \<lparr> lastBlock := block \<rparr>)
              | Some mc \<Rightarrow>
                  if Changed mc then
                    (let c3 = c2 \<lparr> opts_BlockMetadata := NewBlockMetadata mc \<rparr> in
                     case configureComm c3 of
                       Inl err \<Rightarrow> Inl (ConfigureCommFailed, c3)
                     | Inr c4 \<Rightarrow> Inr (c4 \<lparr> lastBlock := block \<rparr>))
                  else Inr (c2 \<lparr> lastBlock := block \<rparr>)))
      else Inr (c \<lparr> ledger := ledger c @ [WriteBlock block None], lastBlock := block \<rparr>))"

text \<open>
  The loop \<^verbatim>\<open>for next <= b.Header.Number\<close>. The counter wraps around, so the loop
  need not end when the snapshot is at the largest \<^verbatim>\<open>uint64\<close>; not returning is
  \<open>None\<close>. The result is the error the function returns (\<open>None\<close> is nil) or a panic.
\<close>

partial_function (option) catchUp_loop ::
    "Chain \<Rightarrow> puller \<Rightarrow> u64 \<Rightarrow> u64 \<Rightarrow> (error option \<times> Chain) result option" where
  "catchUp_loop c p next bNumber =
     (if next \<le> bNumber then
        (let c0 = c \<lparr> effects := effects c @ [PullerPullBlock next] \<rparr> in
         case pullBlock p next of
           None \<Rightarrow> Some (Inr (Some OtherError, c0))
         | Some block \<Rightarrow>
             (case catchUp_block c0 block of
                Inl pc \<Rightarrow> Some (Inl pc)
              | Inr c' \<Rightarrow> catchUp_loop c' p (next + 1) bNumber))
      else Some (Inr (None, c)))"

text \<open>\<^verbatim>\<open>catchUp\<close>; the deferred \<^verbatim>\<open>puller.Close()\<close> runs on every way out once the
  puller exists.\<close>

definition catchUp :: "Chain \<Rightarrow> Snapshot \<Rightarrow> (error option \<times> Chain) result option" where
  "catchUp c snap =
     (case UnmarshalBlock (Data snap) of
        Inl err \<Rightarrow> Some (Inr (Some OtherError, c))
      | Inr b \<Rightarrow>
          if Number (lastBlock c) \<ge> Number b then Some (Inr (None, c))
          else
            (let c0 = c \<lparr> effects := effects c @ [CreatePuller] \<rparr> in
             case Chain_createPuller c of
               Inl err \<Rightarrow> Some (Inr (Some OtherError, c0))
             | Inr p \<Rightarrow>
                 (case catchUp_loop c0 p (Number (lastBlock c) + 1) (Number b) of
                    None \<Rightarrow> None
                  | Some (Inl (pn, c')) \<Rightarrow>
                      Some (Inl (pn, c' \<lparr> effects := effects c' @ [PullerClose] \<rparr>))
                  | Some (Inr (err, c')) \<Rightarrow>
                      Some (Inr (err, c' \<lparr> effects := effects c' @ [PullerClose] \<rparr>)))))"

text \<open>The case \<^verbatim>\<open>sn := <-c.snapC\<close> of the main loop. \<^verbatim>\<open>break\<close> leaves the
  \<^verbatim>\<open>select\<close>, and the loop goes on with the chain as it is.\<close>

definition serveRequest_snapshot :: "Chain \<Rightarrow> Snapshot \<Rightarrow> Chain result option" where
  "serveRequest_snapshot c sn =
     (if Index (Metadata sn) \<noteq> 0 \<and> Index (Metadata sn) \<le> appliedIndex c then Some (Inr c)
      else
        (let c1 = (if Index (Metadata sn) \<noteq> 0
                   then c \<lparr> confState := SnapConfState (Metadata sn),
                            appliedIndex := Index (Metadata sn) \<rparr>
                   else c)
         in case catchUp c1 sn of
              None \<Rightarrow> None
            | Some (Inl pc) \<Rightarrow> Some (Inl pc)
            | Some (Inr (Some err, c2)) \<Rightarrow> Some (Inl (CatchUpFailed, c2))
            | Some (Inr (None, c2)) \<Rightarrow> Some (Inr c2)))"

subsection \<open>Leader changes and the errored channel\<close>

text \<open>\<^verbatim>\<open>detectMigration\<close>; it panics when the last block does not hold the index of
  its last config block.\<close>

definition detectMigration :: "Chain \<Rightarrow> bool result" where
  "detectMigration c =
     (if Kafka2RaftMigration (env c) then
        (case LastConfigIndex (lastBlock c) of
           Inl err \<Rightarrow> Inl (BadLastConfigIndex, c)
         | Inr lastConfigIndex \<Rightarrow>
             if lastConfigIndex \<noteq> Number (lastBlock c) then Inr False
             else if IsSystemChannel (env c)
                  then Inr (ConsensusMigrationState (env c) = MIG_STATE_COMMIT)
                  else Inr (ConsensusMigrationState (env c) = MIG_STATE_CONTEXT))
      else Inr False)"

text \<open>\<^verbatim>\<open>NodeExists\<close>, \<^verbatim>\<open>SliceOfConsentersIDs\<close> and \<^verbatim>\<open>ConfChange\<close> of util.go (here
  \<open>ConfChangeFromState\<close>): in each loop the last raft id that is missing on the other
  side is kept.\<close>

fun NodeExists :: "u64 \<Rightarrow> u64 list \<Rightarrow> bool" where
  "NodeExists i [] = False"
| "NodeExists i (nodeID # nodes) = (if nodeID = i then True else NodeExists i nodes)"

definition SliceOfConsentersIDs :: "(u64 \<times> Consenter) list \<Rightarrow> u64 list" where
  "SliceOfConsentersIDs consenters = map fst consenters"

definition ConfChangeFromState :: "BlockMetadata \<Rightarrow> ConfState \<Rightarrow> ConfChange" where
  "ConfChangeFromState raftMetadata cs =
     (if length (Nodes cs) < length (Consenters raftMetadata) then
        \<lparr> Type = ConfChangeAddNode,
          NodeID = fold (\<lambda>(consenterID, consenter) nodeID.
                           if NodeExists consenterID (Nodes cs) then nodeID else consenterID)
                     (Consenters raftMetadata) 0 \<rparr>
      else
        \<lparr> Type = ConfChangeRemoveNode,
          NodeID = fold (\<lambda>n nodeID.
                           if NodeExists n (SliceOfConsentersIDs (Consenters raftMetadata))
                           then nodeID else n)
                     (Nodes cs) 0 \<rparr>)"

definition getInFlightConfChange :: "Chain \<Rightarrow> (ConfChange option) result" where
  "getInFlightConfChange c =
     (case confChangeInProgress c of
        Some cc \<Rightarrow> Inr (Some cc)
      | None \<Rightarrow>
          if Number (lastBlock c) = 0 then Inr None
          else if \<not> IsConfigBlock (lastBlock c) then Inr None
          else
            (case detectMigration c of
               Inl pc \<Rightarrow> Inl pc
             | Inr True \<Rightarrow> Inr None
             | Inr False \<Rightarrow>
                 (let cs = Node_ConfState (env c) in
                  if length (Nodes cs) = length (Consenters (opts_BlockMetadata c)) then Inr None
                  else Inr (Some (ConfChangeFromState (opts_BlockMetadata c) cs)))))"

text \<open>
  The local variables of \<^verbatim>\<open>serveRequest\<close>: \<open>submitC_attached\<close> says whether the local
  \<^verbatim>\<open>submitC\<close> is \<^verbatim>\<open>c.submitC\<close> (or nil), \<open>bc\<close> is the number of the block creator,
  \<open>propC\<close> the channel of the proposing goroutine and \<open>cancelProp\<close> the context it
  cancels (\<open>None\<close> is the initial no-op).
\<close>

record serve_locals =
  ticking :: bool
  soft :: SoftState
  submitC_attached :: bool
  bc :: "u64 option"
  propC :: "nat option"
  cancelProp :: "nat option"

definition isCandidate :: "StateType \<Rightarrow> bool" where
  "isCandidate s = (s = StatePreCandidate \<or> s = StateCandidate)"

text \<open>The closures \<^verbatim>\<open>becomeLeader\<close> (with the assignment of its two results) and
  \<^verbatim>\<open>becomeFollower\<close>.\<close>

definition becomeLeader :: "Chain \<Rightarrow> serve_locals \<Rightarrow> (Chain \<times> serve_locals) result" where
  "becomeLeader c l =
     (let c1 = c \<lparr> blockInflight := 0, justElected := True \<rparr>;
          l1 = l \<lparr> submitC_attached := False \<rparr>
      in case getInFlightConfChange c1 of
           Inl pc \<Rightarrow> Inl pc
         | Inr inflight \<Rightarrow>
             (let c2 = (case inflight of
                          None \<Rightarrow> c1
                        | Some cc \<Rightarrow>
                            c1 \<lparr> effects := effects c1 @ [ProposeConfChange cc],
                                 confChangeInProgress := Some cc, configInflight := True \<rparr>);
                  ch = length (effects c2)
              in Inr (c2 \<lparr> effects := effects c2 @ [GoProposeBlocks ch] \<rparr>,
                      l1 \<lparr> propC := Some ch, cancelProp := Some ch \<rparr>)))"

definition becomeFollower :: "Chain \<Rightarrow> serve_locals \<Rightarrow> Chain \<times> serve_locals" where
  "becomeFollower c l =
     (let c1 = (case cancelProp l of
                  None \<Rightarrow> c
                | Some ctx \<Rightarrow> c \<lparr> effects := effects c @ [CancelProp ctx] \<rparr>);
          c2 = c1 \<lparr> blockInflight := 0, effects := effects c1 @ [CutBatch] \<rparr>
      in (c2, l \<lparr> ticking := False, submitC_attached := True, bc := None \<rparr>))"

text \<open>
  The case \<^verbatim>\<open>app := <-c.applyC\<close> of the main loop, for a non-nil \<^verbatim>\<open>app.soft\<close>, up to
  the notification of the observer; \<^verbatim>\<open>raft.None\<close> is 0. \<open>leaderChanged\<close> is its
  first block, \<^verbatim>\<open>if newLeader != soft.Lead { ... }\<close>. The \<^verbatim>\<open>select\<close> on
  \<^verbatim>\<open>c.errorC\<close> takes its default branch exactly when the channel has not been closed.
\<close>

definition leaderChanged :: "Chain \<Rightarrow> serve_locals \<Rightarrow> u64 \<Rightarrow> (Chain \<times> serve_locals) result" where
  "leaderChanged c l newLeader =
     (if newLeader \<noteq> Lead (soft l) then
        (let c1 = c \<lparr> lastKnownLeader := newLeader \<rparr> in
         case (if newLeader = raftID c1 then becomeLeader c1 l else Inr (c1, l)) of
           Inl pc \<Rightarrow> Inl pc
         | Inr (c2, l2) \<Rightarrow>
             if Lead (soft l) = raftID c2 then Inr (becomeFollower c2 l2) else Inr (c2, l2))
      else Inr (c, l))"

definition serveRequest_soft :: "Chain \<Rightarrow> serve_locals \<Rightarrow> SoftState \<Rightarrow> (Chain \<times> serve_locals) result" where
  "serveRequest_soft c l app_soft =
     (let newLeader = Lead app_soft in
      case leaderChanged c l newLeader of
        Inl pc \<Rightarrow> Inl pc
      | Inr (c3, l3) \<Rightarrow>
          (let foundLeader = (Lead (soft l3) = 0 \<and> newLeader \<noteq> 0);
               quitCandidate = (isCandidate (RaftState (soft l3)) \<and> \<not> isCandidate (RaftState app_soft));
               c4 = (if foundLeader \<or> quitCandidate
                     then (case make_chan c3 of (ch, c') \<Rightarrow> c' \<lparr> errorC := ch \<rparr>)
                     else c3)
           in case (if isCandidate (RaftState app_soft) \<or> newLeader = 0 then
                      (let c5 = c4 \<lparr> lastKnownLeader := 0 \<rparr> in
                       if chan_closed c5 (errorC c5) then Inr c5
                       else
                         (let nodeCount = length (Consenters (opts_BlockMetadata c5)) in
                          if nodeCount > 2 then close_chan c5 (errorC c5) else Inr c5))
                    else Inr c4) of
                Inl pc \<Rightarrow> Inl pc
              | Inr c6 \<Rightarrow>
                  (let soft' = \<lparr> Lead = newLeader, RaftState = RaftState app_soft \<rparr>
                   in Inr (c6 \<lparr> effects := effects c6 @ [ObserveSoftState soft'] \<rparr>,
                           l3 \<lparr> soft := soft' \<rparr>))))"

text \<open>The main loop taking a sequence of new soft states, one after the other; a panic
  ends it.\<close>

fun serve_soft_events :: "Chain \<Rightarrow> serve_locals \<Rightarrow> SoftState list \<Rightarrow> (Chain \<times> serve_locals) result" where
  "serve_soft_events c l [] = Inr (c, l)"
| "serve_soft_events c l (s # ss) =
     (case serveRequest_soft c l s of
        Inl pc \<Rightarrow> Inl pc
      | Inr (c', l') \<Rightarrow> serve_soft_events c' l' ss)"

text \<open>The case \<^verbatim>\<open><-c.doneC\<close> of the main loop.\<close>

definition serveRequest_done :: "Chain \<Rightarrow> serve_locals \<Rightarrow> Chain result" where
  "serveRequest_done c l =
     (let c1 = (case cancelProp l of
                  None \<Rightarrow> c
                | Some ctx \<Rightarrow> c \<lparr> effects := effects c @ [CancelProp ctx] \<rparr>)
      in case (if chan_closed c1 (errorC c1) then Inr c1 else close_chan c1 (errorC c1)) of
           Inl pc \<Rightarrow> Inl pc
         | Inr c2 \<Rightarrow> Inr (c2 \<lparr> effects := effects c2 @ [PeriodicCheckerStop] \<rparr>))"

text \<open>\<^verbatim>\<open>Start\<close> and \<^verbatim>\<open>Errored\<close>. When the communication cannot be configured,
  \<^verbatim>\<open>Start\<close> closes \<^verbatim>\<open>doneC\<close> and returns without starting anything.\<close>

definition Start :: "Chain \<Rightarrow> Chain result" where
  "Start c =
     (case configureComm c of
        Inl err \<Rightarrow> close_chan c (doneC c)
      | Inr c1 \<Rightarrow>
          (let isJoin = (support_Height (env c1) > 1) in
           case (if isJoin then detectMigration c1 else Inr False) of
             Inl pc \<Rightarrow> Inl pc
           | Inr isMigration \<Rightarrow>
               (let c2 = c1 \<lparr> effects := effects c1 @ [NodeStart (fresh c1) isJoin isMigration] \<rparr> in
                case close_chan c2 (startC c2) of
                  Inl pc \<Rightarrow> Inl pc
                | Inr c3 \<Rightarrow>
                    (case close_chan c3 (errorC c3) of
                       Inl pc \<Rightarrow> Inl pc
                     | Inr c4 \<Rightarrow>
                         Inr (c4 \<lparr> effects := effects c4 @ [GoGc, GoServeRequest, PeriodicCheckerRun] \<rparr>)))))"

definition Errored :: "Chain \<Rightarrow> nat" where
  "Errored c = errorC c"

section \<open>Concrete inputs\<close>

definition consenter1 :: Consenter where
  "consenter1 = \<lparr> Host = ''orderer1'', Port = 7050, ClientTlsCert = ''client-cert-1'', ServerTlsCert = ''server-cert-1'' \<rparr>"
definition consenter2 :: Consenter where
  "consenter2 = \<lparr> Host = ''orderer2'', Port = 7050, ClientTlsCert = ''client-cert-2'', ServerTlsCert = ''server-cert-2'' \<rparr>"
definition consenter3 :: Consenter where
  "consenter3 = \<lparr> Host = ''orderer3'', Port = 7050, ClientTlsCert = ''client-cert-3'', ServerTlsCert = ''server-cert-3'' \<rparr>"
definition consenter3' :: Consenter where
  "consenter3' = \<lparr> Host = ''orderer3'', Port = 7050, ClientTlsCert = ''client-cert-3-new'', ServerTlsCert = ''server-cert-3-new'' \<rparr>"
definition consenter4 :: Consenter where
  "consenter4 = \<lparr> Host = ''orderer4'', Port = 7050, ClientTlsCert = ''client-cert-4'', ServerTlsCert = ''server-cert-4'' \<rparr>"

definition metadata123 :: BlockMetadata where
  "metadata123 = \<lparr> Consenters = [(1, consenter1), (2, consenter2), (3, consenter3)], NextConsenterId = 4, RaftIndex = 0 \<rparr>"


definition consenter5_dup :: Consenter where
  "consenter5_dup = \<lparr> Host = ''orderer5'', Port = 7050, ClientTlsCert = ''client-cert-5'', ServerTlsCert = ''client-cert-1'' \<rparr>"


definition normal_block :: "u64 \<Rightarrow> Block" where
  "normal_block n = \<lparr> Number = n, IsConfigBlock = False, ChannelHeaderType = Inr HeaderType_OTHER,
                      ConfigUpdateMetadata = Inl OtherError, LastConfigIndex = Inr 0 \<rparr>"

definition config_block :: "u64 \<Rightarrow> ConfigMetadata option \<Rightarrow> Block" where
  "config_block n md = \<lparr> Number = n, IsConfigBlock = True, ChannelHeaderType = Inr HeaderType_CONFIG,
                         ConfigUpdateMetadata = Inr md, LastConfigIndex = Inr n \<rparr>"

definition cluster_puller :: puller where
  "cluster_puller = \<lparr> pullBlock = (\<lambda>seq. if seq = 50 then Some (config_block 50 None) else Some (normal_block seq)),
                      pullLastConfigBlock = Inr (config_block 50 None) \<rparr>"

definition evicted_suspector :: evictionSuspector where
  "evicted_suspector =
     \<lparr> evictionSuspicionThreshold = 600, createPuller = Inr cluster_puller, height = 48,
       amIInChannel = (\<lambda>block. Some ErrNotInChannel), writeBlock = (\<lambda>events block. None),
       halted = False \<rparr>"


definition chain3 :: Chain where
  "chain3 =
     \<lparr> raftID = 1, channelID = ''mychannel'', lastKnownLeader = 0,
       channels = [False, False, False], startC = 0, doneC = 1, errorC = 2,
       confChangeInProgress = None, justElected = False, configInflight = False,
       blockInflight = 0, lastBlock = normal_block 9, appliedIndex = 20,
       sizeLimit = 1000, accDataSize = 0, lastSnapBlockNum = 0,
       confState = \<lparr> Nodes = [1, 2, 3], Learners = [] \<rparr>,
       Chain_createPuller = Inr cluster_puller, fresh = False,
       opts_BlockMetadata = metadata123, opts_MaxInflightMsgs = 5,
       env = \<lparr> pem_Decode = (\<lambda>pemBytes. Some pemBytes), support_Height = 10,
               Kafka2RaftMigration = False, IsSystemChannel = False,
               ConsensusMigrationState = MIG_STATE_NONE,
               Node_ConfState = \<lparr> Nodes = [1, 2, 3], Learners = [] \<rparr> \<rparr>,
       ledger = [], effects = [] \<rparr>"

definition two_added_metadata :: ConfigMetadata where
  "two_added_metadata =
     \<lparr> ConfigConsenters = [Some consenter1, Some consenter2, Some consenter3, Some consenter3', Some consenter4],
       Options = None \<rparr>"


definition snapshot_at :: "u64 \<Rightarrow> Block \<Rightarrow> Snapshot" where
  "snapshot_at idx block =
     \<lparr> Data = MarshalledBlock block,
       Metadata = \<lparr> SnapConfState = \<lparr> Nodes = [1, 2, 3, 4], Learners = [] \<rparr>, Index = idx, Term = 2 \<rparr> \<rparr>"


definition chain1 :: Chain where
  "chain1 = chain3 \<lparr> opts_BlockMetadata :=
      \<lparr> Consenters = [(1, consenter1)], NextConsenterId = 2, RaftIndex = 0 \<rparr> \<rparr>"

definition started1 :: Chain where
  "started1 = chain1 \<lparr> channels := [True, False, True],
      effects := [Configure ''mychannel'' [], NodeStart False True False,
                  GoGc, GoServeRequest, PeriodicCheckerRun] \<rparr>"

definition remote23 :: "RemoteNode list" where
  "remote23 =
     [\<lparr> ID = 2, Endpoint = (''orderer2'', 7050), ServerTLSCert = ''server-cert-2'', ClientTLSCert = ''client-cert-2'' \<rparr>,
      \<lparr> ID = 3, Endpoint = (''orderer3'', 7050), ServerTLSCert = ''server-cert-3'', ClientTLSCert = ''client-cert-3'' \<rparr>]"

definition started3 :: Chain where
  "started3 = chain3 \<lparr> channels := [True, False, True],
      effects := [Configure ''mychannel'' remote23, NodeStart False True False,
                  GoGc, GoServeRequest, PeriodicCheckerRun] \<rparr>"

definition locals0 :: serve_locals where
  "locals0 = \<lparr> ticking = False, soft = \<lparr> Lead = 0, RaftState = StateFollower \<rparr>,
               submitC_attached = True, bc = None, propC = None, cancelProp = None \<rparr>"

definition leader2 :: SoftState where
  "leader2 = \<lparr> Lead = 2, RaftState = StateFollower \<rparr>"

definition no_leader :: SoftState where
  "no_leader = \<lparr> Lead = 0, RaftState = StateFollower \<rparr>"

definition found3 :: Chain where
  "found3 = started3 \<lparr> lastKnownLeader := 2, channels := [True, False, True, False], errorC := 3,
      effects := effects started3 @ [ObserveSoftState leader2] \<rparr>"

definition lost3 :: Chain where
  "lost3 = found3 \<lparr> lastKnownLeader := 0, channels := [True, False, True, True],
      effects := effects found3 @ [ObserveSoftState no_leader] \<rparr>"




section \<open>Properties of the membership computation\<close>

lemma MembershipByCert_image: "MembershipByCert cs = ClientTlsCert ` snd ` set cs"
  by (force simp: MembershipByCert_def image_iff split: prod.splits)

lemma added_loop_nil: "None \<in> set cs \<Longrightarrow> added_loop S cs acc = Inl NilPointerDereference"
  by (induction S cs acc rule: added_loop.induct) auto

lemma added_loop_filter:
  "added_loop S (map Some cs) acc = Inr (acc @ filter (\<lambda>c. ClientTlsCert c \<notin> S) cs)"
  by (induction cs arbitrary: acc) auto

lemma ConsentersToMap_nil: "None \<in> set cs \<Longrightarrow> ConsentersToMap cs = Inl NilPointerDereference"
  by (induction cs rule: ConsentersToMap.induct) auto

lemma ConsentersToMap_set: "ConsentersToMap (map Some cs) = Inr (ClientTlsCert ` set cs)"
  by (induction cs) auto

lemma removed_loop_filter:
  "removed_loop S old (removed, d) =
     (removed @ map snd (filter (\<lambda>(nodeID, c). ClientTlsCert c \<notin> S) old),
      case filter (\<lambda>(nodeID, c). ClientTlsCert c \<notin> S) old of [] \<Rightarrow> d | x # xs \<Rightarrow> fst (last (x # xs)))"
  by (induction old arbitrary: removed d) (auto split: list.splits)

lemma cmc_unfold:
  "ComputeMembershipChanges oldMetadata (map Some new) =
    (let added = added_by_cert oldMetadata new;
         rm = removed_by_cert oldMetadata new;
         removed = map snd rm;
         deletedNodeID = (case rm of [] \<Rightarrow> 0 | x # xs \<Rightarrow> fst (last rm));
         result = \<lparr> NewBlockMetadata = oldMetadata, AddedNodes = added,
                                     RemovedNodes = removed, ConfChange = None, RotatedNode = 0 \<rparr>
     in if length added = 1 \<and> length rm = 1 then
                          Inr (Inr (result
                            \<lparr> RotatedNode := deletedNodeID,
                              NewBlockMetadata := oldMetadata
                                \<lparr> Consenters :=
                                    AList.update deletedNodeID (added ! 0) (Consenters oldMetadata) \<rparr> \<rparr>))
                        else if length added = 1 \<and> length rm = 0 then
                          (let nodeID = NextConsenterId oldMetadata in
                           Inr (Inr (result
                             \<lparr> NewBlockMetadata := oldMetadata
                                 \<lparr> Consenters :=
                                     AList.update nodeID (added ! 0) (Consenters oldMetadata),
                                   NextConsenterId := NextConsenterId oldMetadata + 1 \<rparr>,
                               ConfChange := Some \<lparr> Type = ConfChangeAddNode, NodeID = nodeID \<rparr> \<rparr>)))
                        else if length added = 0 \<and> length rm = 1 then
                          (let nodeID = deletedNodeID in
                           Inr (Inr (result
                             \<lparr> ConfChange := Some \<lparr> Type = ConfChangeRemoveNode, NodeID = nodeID \<rparr>,
                               NewBlockMetadata := oldMetadata
                                 \<lparr> Consenters := AList.delete nodeID (Consenters oldMetadata) \<rparr> \<rparr>)))
                        else if length added = 0 \<and> length rm = 0 then
                          Inr (Inr result)
                        else
                          Inr (Inl (MoreThanOneConsenterChange (length added) (length rm))))"
  unfolding ComputeMembershipChanges_def added_loop_filter ConsentersToMap_set removed_loop_filter
    added_by_cert_def removed_by_cert_def MembershipByCert_image
  by (simp add: Let_def split: list.splits)

lemma removed_by_cert_mem:
  "removed_by_cert oldMetadata new = [(nodeID, r)] \<Longrightarrow> (nodeID, r) \<in> set (Consenters oldMetadata)"
proof -
  assume "removed_by_cert oldMetadata new = [(nodeID, r)]"
  then have "(nodeID, r) \<in> set (removed_by_cert oldMetadata new)" by simp
  then show ?thesis by (simp add: removed_by_cert_def)
qed


lemma length_delete_distinct:
  "distinct (map fst al) \<Longrightarrow> k \<in> fst ` set al \<Longrightarrow> Suc (length (AList.delete k al)) = length al"
proof (induction al)
  case Nil
  then show ?case by simp
next
  case (Cons p al)
  show ?case
  proof (cases "fst p = k")
    case True
    with Cons.prems have "k \<notin> fst ` set al" by auto
    with True show ?thesis by (cases p) (simp add: delete_id)
  next
    case False
    with Cons show ?thesis by (cases p) auto
  qed
qed

lemma length_update_alist:
  "length (AList.update k v al) = (if k \<in> fst ` set al then length al else Suc (length al))"
  by (induction al) auto

lemma dom_delete_eq: "fst ` set (AList.delete k al) = fst ` set al - {k}"
  by (induction al) auto


lemma added_loop_panic: "added_loop S cs acc = Inl p \<Longrightarrow> p = NilPointerDereference"
  by (induction S cs acc rule: added_loop.induct) auto

lemma ConsentersToMap_panic: "ConsentersToMap cs = Inl p \<Longrightarrow> p = NilPointerDereference"
  by (induction cs rule: ConsentersToMap.induct) (auto split: sum.splits)

lemma cmc_panic: "ComputeMembershipChanges old new = Inl p \<Longrightarrow> p = NilPointerDereference"
  by (auto simp: ComputeMembershipChanges_def Let_def split: sum.splits prod.splits if_splits
      dest: added_loop_panic ConsentersToMap_panic)


subsection \<open>C2: more than one change is rejected\<close>

text \<open>
  Claim C2. For every old metadata and every list of new consenters,
  \<^verbatim>\<open>ComputeMembershipChanges\<close> returns an error if and only if more than one consenter
  is added or more than one is removed, where added and removed are computed by
  client-certificate membership between the old map and the new list. In particular
  every change with \<open>|added| + |removed| > 2\<close> is rejected, and every change with
  \<open>|added| \<le> 1\<close> and \<open>|removed| \<le> 1\<close> succeeds.
\<close>

theorem C2_multi_change_rejected:
  "((\<exists>e. ComputeMembershipChanges oldMetadata (map Some new) = Inr (Inl e)) \<longleftrightarrow>
            (length (added_by_cert oldMetadata new) > 1 \<or>
             length (removed_by_cert oldMetadata new) > 1))
       \<and> (length (added_by_cert oldMetadata new) +
            length (removed_by_cert oldMetadata new) > 2 \<longrightarrow>
            (\<exists>e. ComputeMembershipChanges oldMetadata (map Some new) = Inr (Inl e)))
       \<and> (length (added_by_cert oldMetadata new) \<le> 1 \<and>
            length (removed_by_cert oldMetadata new) \<le> 1 \<longrightarrow>
            (\<exists>mc. ComputeMembershipChanges oldMetadata (map Some new) = Inr (Inr mc)))"
proof -
  let ?a = "length (added_by_cert oldMetadata new)"
  let ?r = "length (removed_by_cert oldMetadata new)"
  have cases: "(?a = 1 \<and> ?r = 1) \<or> (?a = 1 \<and> ?r = 0) \<or> (?a = 0 \<and> ?r = 1) \<or> (?a = 0 \<and> ?r = 0)
      \<or> (1 < ?a \<or> 1 < ?r)" by arith
  have err: "1 < ?a \<or> 1 < ?r \<Longrightarrow>
      ComputeMembershipChanges oldMetadata (map Some new) = Inr (Inl (MoreThanOneConsenterChange ?a ?r))"
    by (auto simp add: cmc_unfold Let_def)
  have ok: "\<exists>mc. ComputeMembershipChanges oldMetadata (map Some new) = Inr (Inr mc)"
    if "?a \<le> 1" "?r \<le> 1"
  proof -
    from that consider "?a = 1 \<and> ?r = 1" | "?a = 1 \<and> ?r = 0" | "?a = 0 \<and> ?r = 1" | "?a = 0 \<and> ?r = 0"
      by arith
    then show ?thesis
      by cases (simp_all add: cmc_unfold Let_def)
  qed
  have iff: "(\<exists>e. ComputeMembershipChanges oldMetadata (map Some new) = Inr (Inl e)) \<longleftrightarrow> (1 < ?a \<or> 1 < ?r)"
  proof
    assume "\<exists>e. ComputeMembershipChanges oldMetadata (map Some new) = Inr (Inl e)"
    with ok show "1 < ?a \<or> 1 < ?r" by fastforce
  next
    assume "1 < ?a \<or> 1 < ?r"
    with err show "\<exists>e. ComputeMembershipChanges oldMetadata (map Some new) = Inr (Inl e)" by blast
  qed
  have sum: "2 < ?a + ?r \<Longrightarrow> 1 < ?a \<or> 1 < ?r" by arith
  from iff sum ok show ?thesis by blast
qed

theorem C2_multi_change_rejected_witness:
  "length (added_by_cert metadata123 [consenter1, consenter2, consenter3, consenter3', consenter4]) = 2
   \<and> length (removed_by_cert metadata123 [consenter1, consenter2, consenter3, consenter3', consenter4]) = 0
   \<and> ComputeMembershipChanges metadata123
        (map Some [consenter1, consenter2, consenter3, consenter3', consenter4])
      = Inr (Inl (MoreThanOneConsenterChange 2 0))
   \<and> (\<exists>mc. ComputeMembershipChanges metadata123 (map Some [consenter1, consenter2, consenter3])
             = Inr (Inr mc))"
  using C2_multi_change_rejected [of metadata123 "[consenter1, consenter2, consenter3, consenter3', consenter4]"]
    C2_multi_change_rejected [of metadata123 "[consenter1, consenter2, consenter3]"]
  by (simp add: consenter1_def consenter2_def consenter3_def consenter3'_def consenter4_def metadata123_def added_by_cert_def removed_by_cert_def ComputeMembershipChanges_def MembershipByCert_def)


text \<open>
  The theorem speaks of lists of consenters. A nil pointer in the slice is dereferenced
  by the first loop: the call panics before any difference is computed. On the
  submission path \<^verbatim>\<open>checkConsentersSet\<close> calls \<^verbatim>\<open>MetadataHasDuplication\<close> first,
  which rejects a nil consenter with an error.
\<close>

lemma cmc_nil_panics:
  "None \<in> set newConsenters \<Longrightarrow>
     ComputeMembershipChanges oldMetadata newConsenters = Inl NilPointerDereference"
  by (simp add: ComputeMembershipChanges_def added_loop_nil)

subsection \<open>C3: one added and one removed is a rotation\<close>

text \<open>
  Claim C3. Whenever \<^verbatim>\<open>ComputeMembershipChanges\<close> computes exactly one added consenter
  \<open>a\<close> and exactly one removed consenter \<open>r\<close>, stored under raft id \<open>nodeID\<close>, the
  result is a rotation: \<^verbatim>\<open>RotatedNode\<close> is \<open>nodeID\<close>, the new metadata maps
  \<open>nodeID\<close> to \<open>a\<close>, the \<^verbatim>\<open>ConfChange\<close> field is nil, and
  \<^verbatim>\<open>NextConsenterId\<close> is the one of the old metadata.
\<close>

theorem C3_rotation:
  assumes "added_by_cert oldMetadata new = [a]"
    and "removed_by_cert oldMetadata new = [(nodeID, r)]"
  shows "\<exists>mc. ComputeMembershipChanges oldMetadata (map Some new) = Inr (Inr mc)
      \<and> AddedNodes mc = [a] \<and> RemovedNodes mc = [r] \<and> Rotated mc
      \<and> (nodeID, r) \<in> set (Consenters oldMetadata)
      \<and> RotatedNode mc = nodeID
      \<and> map_of (Consenters (NewBlockMetadata mc)) nodeID = Some a
      \<and> ConfChange mc = None
      \<and> NextConsenterId (NewBlockMetadata mc) = NextConsenterId oldMetadata"
  using removed_by_cert_mem [OF assms(2)]
  by (simp add: cmc_unfold assms Let_def Rotated_def update_conv')

theorem C3_rotation_witness:
  "added_by_cert metadata123 [consenter1, consenter2, consenter3'] = [consenter3']
   \<and> removed_by_cert metadata123 [consenter1, consenter2, consenter3'] = [(3, consenter3)]
   \<and> ComputeMembershipChanges metadata123 (map Some [consenter1, consenter2, consenter3']) =
       Inr (Inr \<lparr> NewBlockMetadata =
                    \<lparr> Consenters = [(1, consenter1), (2, consenter2), (3, consenter3')],
                      NextConsenterId = 4, RaftIndex = 0 \<rparr>,
                  AddedNodes = [consenter3'], RemovedNodes = [consenter3],
                  ConfChange = None, RotatedNode = 3 \<rparr>)"
  using C3_rotation [of metadata123 "[consenter1, consenter2, consenter3']" consenter3' 3 consenter3]
  by (simp add: consenter1_def consenter2_def consenter3_def consenter3'_def metadata123_def added_by_cert_def removed_by_cert_def ComputeMembershipChanges_def MembershipByCert_def)

subsection \<open>C4: adding and removing one consenter\<close>

text \<open>
  Claim C4, as the code has it. With exactly one added consenter \<open>a\<close> and none removed,
  \<open>a\<close> is stored under the old \<^verbatim>\<open>NextConsenterId\<close>, \<^verbatim>\<open>NextConsenterId\<close> is
  incremented by one and \<^verbatim>\<open>ConfChangeAddNode\<close> with that raft id is produced; the number
  of consenters grows by exactly one provided the old \<^verbatim>\<open>NextConsenterId\<close> is not already
  a raft id of the old map. With none added and exactly one removed,
  \<^verbatim>\<open>ConfChangeRemoveNode\<close> with the removed consenter's raft id is produced, its entry is
  deleted and the number of consenters shrinks by exactly one. A rotation preserves the
  number of consenters and the set of raft ids.
\<close>

theorem C4_add_and_remove:
  assumes "distinct (map fst (Consenters oldMetadata))"
  shows
    "(added_by_cert oldMetadata new = [a] \<and>
      removed_by_cert oldMetadata new = [] \<longrightarrow>
        (\<exists>mc. ComputeMembershipChanges oldMetadata (map Some new) = Inr (Inr mc)
           \<and> map_of (Consenters (NewBlockMetadata mc)) (NextConsenterId oldMetadata) = Some a
           \<and> NextConsenterId (NewBlockMetadata mc) = NextConsenterId oldMetadata + 1
           \<and> ConfChange mc = Some \<lparr> Type = ConfChangeAddNode, NodeID = NextConsenterId oldMetadata \<rparr>
           \<and> distinct (map fst (Consenters (NewBlockMetadata mc)))
           \<and> (NextConsenterId oldMetadata \<notin> fst ` set (Consenters oldMetadata) \<longrightarrow>
                length (Consenters (NewBlockMetadata mc)) = length (Consenters oldMetadata) + 1)))
   \<and> (added_by_cert oldMetadata new = [] \<and>
      removed_by_cert oldMetadata new = [(nodeID, r)] \<longrightarrow>
        (\<exists>mc. ComputeMembershipChanges oldMetadata (map Some new) = Inr (Inr mc)
           \<and> ConfChange mc = Some \<lparr> Type = ConfChangeRemoveNode, NodeID = nodeID \<rparr>
           \<and> map_of (Consenters oldMetadata) nodeID = Some r
           \<and> map_of (Consenters (NewBlockMetadata mc)) nodeID = None
           \<and> distinct (map fst (Consenters (NewBlockMetadata mc)))
           \<and> length (Consenters (NewBlockMetadata mc)) + 1 = length (Consenters oldMetadata)))
   \<and> (added_by_cert oldMetadata new = [a] \<and>
      removed_by_cert oldMetadata new = [(nodeID, r)] \<longrightarrow>
        (\<exists>mc. ComputeMembershipChanges oldMetadata (map Some new) = Inr (Inr mc)
           \<and> distinct (map fst (Consenters (NewBlockMetadata mc)))
           \<and> length (Consenters (NewBlockMetadata mc)) = length (Consenters oldMetadata)
           \<and> fst ` set (Consenters (NewBlockMetadata mc)) = fst ` set (Consenters oldMetadata)))"
proof (intro conjI impI)
  assume h: "added_by_cert oldMetadata new = [a] \<and>
      removed_by_cert oldMetadata new = []"
  show "\<exists>mc. ComputeMembershipChanges oldMetadata (map Some new) = Inr (Inr mc)
           \<and> map_of (Consenters (NewBlockMetadata mc)) (NextConsenterId oldMetadata) = Some a
           \<and> NextConsenterId (NewBlockMetadata mc) = NextConsenterId oldMetadata + 1
           \<and> ConfChange mc = Some \<lparr> Type = ConfChangeAddNode, NodeID = NextConsenterId oldMetadata \<rparr>
           \<and> distinct (map fst (Consenters (NewBlockMetadata mc)))
           \<and> (NextConsenterId oldMetadata \<notin> fst ` set (Consenters oldMetadata) \<longrightarrow>
                length (Consenters (NewBlockMetadata mc)) = length (Consenters oldMetadata) + 1)"
    using h assms
    by (simp add: cmc_unfold Let_def update_conv' distinct_update length_update_alist)
next
  assume h: "added_by_cert oldMetadata new = [] \<and>
      removed_by_cert oldMetadata new = [(nodeID, r)]"
  then have mem: "(nodeID, r) \<in> set (Consenters oldMetadata)"
    using removed_by_cert_mem by blast
  then have key: "nodeID \<in> fst ` set (Consenters oldMetadata)" by force
  show "\<exists>mc. ComputeMembershipChanges oldMetadata (map Some new) = Inr (Inr mc)
           \<and> ConfChange mc = Some \<lparr> Type = ConfChangeRemoveNode, NodeID = nodeID \<rparr>
           \<and> map_of (Consenters oldMetadata) nodeID = Some r
           \<and> map_of (Consenters (NewBlockMetadata mc)) nodeID = None
           \<and> distinct (map fst (Consenters (NewBlockMetadata mc)))
           \<and> length (Consenters (NewBlockMetadata mc)) + 1 = length (Consenters oldMetadata)"
    using h assms mem length_delete_distinct [OF assms key]
    by (simp add: cmc_unfold Let_def delete_conv' distinct_delete)
next
  assume h: "added_by_cert oldMetadata new = [a] \<and>
      removed_by_cert oldMetadata new = [(nodeID, r)]"
  then have mem: "(nodeID, r) \<in> set (Consenters oldMetadata)"
    using removed_by_cert_mem by blast
  then have key: "nodeID \<in> fst ` set (Consenters oldMetadata)" by force
  show "\<exists>mc. ComputeMembershipChanges oldMetadata (map Some new) = Inr (Inr mc)
           \<and> distinct (map fst (Consenters (NewBlockMetadata mc)))
           \<and> length (Consenters (NewBlockMetadata mc)) = length (Consenters oldMetadata)
           \<and> fst ` set (Consenters (NewBlockMetadata mc)) = fst ` set (Consenters oldMetadata)"
    using h assms key
    by (auto simp add: cmc_unfold Let_def distinct_update length_update_alist dom_update)
qed

theorem C4_add_and_remove_witness:
  "distinct (map fst (Consenters metadata123))
   \<and> added_by_cert metadata123 [consenter1, consenter2, consenter3, consenter4] = [consenter4]
   \<and> removed_by_cert metadata123 [consenter1, consenter2, consenter3, consenter4] = []
   \<and> NextConsenterId metadata123 \<notin> fst ` set (Consenters metadata123)
   \<and> ComputeMembershipChanges metadata123 (map Some [consenter1, consenter2, consenter3, consenter4]) =
       Inr (Inr \<lparr> NewBlockMetadata =
                    \<lparr> Consenters = [(1, consenter1), (2, consenter2), (3, consenter3), (4, consenter4)],
                      NextConsenterId = 5, RaftIndex = 0 \<rparr>,
                  AddedNodes = [consenter4], RemovedNodes = [],
                  ConfChange = Some \<lparr> Type = ConfChangeAddNode, NodeID = 4 \<rparr>, RotatedNode = 0 \<rparr>)
   \<and> added_by_cert metadata123 [consenter1, consenter2] = []
   \<and> removed_by_cert metadata123 [consenter1, consenter2] = [(3, consenter3)]
   \<and> ComputeMembershipChanges metadata123 (map Some [consenter1, consenter2]) =
       Inr (Inr \<lparr> NewBlockMetadata =
                    \<lparr> Consenters = [(1, consenter1), (2, consenter2)],
                      NextConsenterId = 4, RaftIndex = 0 \<rparr>,
                  AddedNodes = [], RemovedNodes = [consenter3],
                  ConfChange = Some \<lparr> Type = ConfChangeRemoveNode, NodeID = 3 \<rparr>, RotatedNode = 0 \<rparr>)"
  using C4_add_and_remove [of metadata123 "[consenter1, consenter2, consenter3, consenter4]" consenter4 3 consenter3]
    C4_add_and_remove [of metadata123 "[consenter1, consenter2]" consenter4 3 consenter3]
  by (simp add: consenter1_def consenter2_def consenter3_def consenter4_def metadata123_def added_by_cert_def removed_by_cert_def ComputeMembershipChanges_def MembershipByCert_def)

text \<open>
  The claim as stated fails where the old \<^verbatim>\<open>NextConsenterId\<close> is already a raft id of the
  old map: the added consenter overwrites that entry, and the number of consenters does
  not change.
\<close>

theorem C4_counterexample:
  "ComputeMembershipChanges
       \<lparr> Consenters = [(5, consenter1)], NextConsenterId = 5, RaftIndex = 0 \<rparr>
       (map Some [consenter1, consenter2]) =
     Inr (Inr \<lparr> NewBlockMetadata =
                  \<lparr> Consenters = [(5, consenter2)], NextConsenterId = 6, RaftIndex = 0 \<rparr>,
                AddedNodes = [consenter2], RemovedNodes = [],
                ConfChange = Some \<lparr> Type = ConfChangeAddNode, NodeID = 5 \<rparr>, RotatedNode = 0 \<rparr>)
   \<and> added_by_cert \<lparr> Consenters = [(5, consenter1)], NextConsenterId = 5, RaftIndex = 0 \<rparr>
         [consenter1, consenter2] = [consenter2]
   \<and> removed_by_cert \<lparr> Consenters = [(5, consenter1)], NextConsenterId = 5, RaftIndex = 0 \<rparr>
         [consenter1, consenter2] = []
   \<and> length [(5 :: u64, consenter2)] = length [(5 :: u64, consenter1)]"
  by (simp add: consenter1_def consenter2_def ComputeMembershipChanges_def MembershipByCert_def
      added_by_cert_def removed_by_cert_def)

section \<open>The eviction suspector\<close>

text \<open>
  Where the suspector reaches its last loop, the last config block is at or above the
  height and is not the largest \<^verbatim>\<open>uint64\<close>, so the loop ends: it is the loop body
  over the sequence numbers from the height through the number of the last config
  block.
\<close>

lemma unat_succ_below:
  fixes seq l :: u64
  assumes "seq \<le> l" "l \<noteq> - 1"
  shows "unat (seq + 1) = Suc (unat seq)"
proof -
  have "seq \<noteq> - 1" using assms by (metis word_order.extremum_unique)
  then have "seq + 1 \<noteq> 0" by (metis max_word_wrap)
  then show ?thesis by (metis add.commute unatSuc)
qed

lemma eviction_pull_loop_eq:
  assumes "lastNumber \<noteq> - 1" "unat seq \<le> Suc (unat lastNumber)"
  shows "eviction_pull_loop es p seq lastNumber events =
           Some (pull_and_write es p (map word_of_nat [unat seq ..< Suc (unat lastNumber)]) events)"
  using assms(2)
proof (induction "Suc (unat lastNumber) - unat seq" arbitrary: seq events)
  case 0
  then have "unat seq = Suc (unat lastNumber)" by simp
  then have "\<not> seq \<le> lastNumber" by (simp add: word_le_nat_alt)
  then show ?case
    using \<open>unat seq = Suc (unat lastNumber)\<close>
    by (subst eviction_pull_loop.simps) simp
next
  case (Suc n)
  then have le: "seq \<le> lastNumber" by (simp add: word_le_nat_alt)
  have step: "unat (seq + 1) = Suc (unat seq)"
    using le assms(1) by (rule unat_succ_below)
  have range: "[unat seq ..< Suc (unat lastNumber)] = unat seq # [Suc (unat seq) ..< Suc (unat lastNumber)]"
    using le by (simp add: word_le_nat_alt upt_conv_Cons)
  have IH: "eviction_pull_loop es p (seq + 1) lastNumber ev =
           Some (pull_and_write es p (map word_of_nat [unat (seq + 1) ..< Suc (unat lastNumber)]) ev)" for ev
    using Suc.hyps(1) [of "seq + 1" ev] Suc.hyps(2) le step
    by (simp add: word_le_nat_alt)
  have rhs: "map word_of_nat [unat seq ..< Suc (unat lastNumber)] =
      seq # map word_of_nat [unat (seq + 1) ..< Suc (unat lastNumber)]"
    unfolding range step by simp
  show ?case
    unfolding rhs
    by (subst eviction_pull_loop.simps) (simp add: le Let_def IH split: option.splits del: upt_Suc)
qed

lemma not_ahead:
  fixes n h :: u64
  assumes "\<not> n + 1 \<le> h"
  shows "n \<noteq> - 1 \<and> unat h \<le> Suc (unat n) \<and> h \<le> n"
proof -
  have n: "n \<noteq> - 1" using assms by auto
  then have "n + 1 \<noteq> 0" by (metis max_word_wrap)
  then have "unat (n + 1) = Suc (unat n)" by (metis add.commute unatSuc)
  with assms n show ?thesis by (simp add: word_le_nat_alt)
qed

lemma confirmSuspicion_evicted:
  assumes "\<not> (evictionSuspicionThreshold es > c \<or> halted es)"
    and "createPuller es = Inr p"
    and "pullLastConfigBlock p = Inr b"
    and "\<not> Number b + 1 \<le> height es"
    and "amIInChannel es b = Some ErrNotInChannel \<or> amIInChannel es b = Some ErrForbidden"
  shows "confirmSuspicion es c =
           Some (fst (pull_and_write es p (seq_range (height es) (Number b))
                        [EvCreatePuller, EvPullLastConfigBlock, EvHalt]),
                 es \<lparr> halted := True \<rparr>,
                 snd (pull_and_write es p (seq_range (height es) (Number b))
                        [EvCreatePuller, EvPullLastConfigBlock, EvHalt]))"
proof -
  from not_ahead [OF assms(4)]
  have "eviction_pull_loop es p (height es) (Number b) [EvCreatePuller, EvPullLastConfigBlock, EvHalt] =
      Some (pull_and_write es p (seq_range (height es) (Number b)) [EvCreatePuller, EvPullLastConfigBlock, EvHalt])"
    unfolding seq_range_def by (intro eviction_pull_loop_eq) simp_all
  then show ?thesis
    using assms by (auto simp add: confirmSuspicion_def Let_def split: prod.splits)
qed

lemma pull_and_write_all_ok:
  assumes "\<And>events block. writeBlock es events block = None"
  shows "pull_and_write es p seqs events =
           (None, events @ concat (map (\<lambda>seq. [EvPullBlock seq, EvWriteBlock (pullBlock p seq)]) seqs))"
  by (induction seqs arbitrary: events) (simp_all add: Let_def assms)

lemma pull_and_write_prefix:
  "\<exists>rest. snd (pull_and_write es p seqs events) = events @ rest \<and> EvHalt \<notin> set rest
      \<and> (\<forall>s. EvTriggerCatchUp s \<notin> set rest)"
proof (induction seqs arbitrary: events)
  case Nil
  then show ?case by simp
next
  case (Cons seq seqs)
  show ?case
  proof (cases "writeBlock es (events @ [EvPullBlock seq]) (pullBlock p seq)")
    case None
    from Cons.IH [of "(events @ [EvPullBlock seq]) @ [EvWriteBlock (pullBlock p seq)]"]
    obtain rest where "snd (pull_and_write es p seqs ((events @ [EvPullBlock seq]) @ [EvWriteBlock (pullBlock p seq)]))
        = ((events @ [EvPullBlock seq]) @ [EvWriteBlock (pullBlock p seq)]) @ rest"
      "EvHalt \<notin> set rest" "\<forall>s. EvTriggerCatchUp s \<notin> set rest" by blast
    then show ?thesis using None
      by (intro exI [of _ "[EvPullBlock seq, EvWriteBlock (pullBlock p seq)] @ rest"]) (simp add: Let_def)
  next
    case (Some e)
    then show ?thesis by (intro exI [of _ "[EvPullBlock seq]"]) (simp add: Let_def)
  qed
qed

lemma confirmSuspicion_halt_only_if:
  assumes "confirmSuspicion es c = Some (pn, es', events)" and "EvHalt \<in> set events"
  shows "\<not> evictionSuspicionThreshold es > c \<and> \<not> halted es \<and>
         (\<exists>p b. createPuller es = Inr p \<and> pullLastConfigBlock p = Inr b
            \<and> \<not> Number b + 1 \<le> height es
            \<and> (amIInChannel es b = Some ErrNotInChannel \<or> amIInChannel es b = Some ErrForbidden))"
  using assms
  by (auto simp add: confirmSuspicion_def Let_def split: if_splits sum.splits)


text \<open>\<^verbatim>\<open>confirmSuspicion\<close> returns or panics on every input; it never runs forever.\<close>

lemma confirmSuspicion_returns: "\<exists>r. confirmSuspicion es c = Some r"
proof (cases "evictionSuspicionThreshold es > c \<or> halted es")
  case True
  then show ?thesis by (simp add: confirmSuspicion_def)
next
  case False
  note thr = False
  show ?thesis
  proof (cases "createPuller es")
    case (Inl e)
    with thr show ?thesis by (simp add: confirmSuspicion_def)
  next
    case (Inr p)
    note p = Inr
    show ?thesis
    proof (cases "pullLastConfigBlock p")
      case (Inl e)
      with thr p show ?thesis by (simp add: confirmSuspicion_def)
    next
      case (Inr b)
      show ?thesis
      proof (cases "\<not> Number b + 1 \<le> height es
           \<and> (amIInChannel es b = Some ErrNotInChannel \<or> amIInChannel es b = Some ErrForbidden)")
        case True
        then show ?thesis using confirmSuspicion_evicted [OF thr p Inr] by simp
      next
        case False
        with thr p Inr show ?thesis by (auto simp add: confirmSuspicion_def Let_def)
      qed
    qed
  qed
qed


text \<open>
  Claim C5. \<^verbatim>\<open>confirmSuspicion(c)\<close> returns without creating a block puller when
  \<open>c\<close> is below the threshold or the suspector has halted. After pulling the last config
  block \<open>b\<close> it returns with no further action when \<open>b.number + 1 \<le> height()\<close>.
  When \<^verbatim>\<open>amIInChannel(b)\<close> is anything but \<^verbatim>\<open>ErrNotInChannel\<close> or
  \<^verbatim>\<open>ErrForbidden\<close> (nil included), it does not halt: it passes a snapshot whose data
  is \<open>b\<close>, with zero metadata, to \<^verbatim>\<open>triggerCatchUp\<close> and returns. On
  \<^verbatim>\<open>ErrNotInChannel\<close> or \<^verbatim>\<open>ErrForbidden\<close> it halts, then pulls and writes the blocks
  \<open>height()\<close> through \<open>b.number\<close> in order, panicking at the first write that fails;
  and \<^verbatim>\<open>halt\<close> is called on no other path.
\<close>

theorem C5_confirmSuspicion:
  "(evictionSuspicionThreshold es > c \<or> halted es \<longrightarrow>
      confirmSuspicion es c = Some (None, es, []))
   \<and> (\<not> evictionSuspicionThreshold es > c \<and> \<not> halted es
        \<and> createPuller es = Inr p \<and> pullLastConfigBlock p = Inr b \<longrightarrow>
        (Number b + 1 \<le> height es \<longrightarrow>
           confirmSuspicion es c = Some (None, es, [EvCreatePuller, EvPullLastConfigBlock]))
      \<and> (\<not> Number b + 1 \<le> height es
           \<and> amIInChannel es b \<noteq> Some ErrNotInChannel \<and> amIInChannel es b \<noteq> Some ErrForbidden \<longrightarrow>
           confirmSuspicion es c =
             Some (None, es,
               [EvCreatePuller, EvPullLastConfigBlock,
                EvTriggerCatchUp \<lparr> Data = MarshalledBlock b, Metadata = zero_SnapshotMetadata \<rparr>]))
      \<and> (\<not> Number b + 1 \<le> height es
           \<and> (amIInChannel es b = Some ErrNotInChannel \<or> amIInChannel es b = Some ErrForbidden) \<longrightarrow>
           confirmSuspicion es c =
             Some (fst (pull_and_write es p (seq_range (height es) (Number b))
                          [EvCreatePuller, EvPullLastConfigBlock, EvHalt]),
                   es \<lparr> halted := True \<rparr>,
                   snd (pull_and_write es p (seq_range (height es) (Number b))
                          [EvCreatePuller, EvPullLastConfigBlock, EvHalt]))
           \<and> ((\<forall>events block. writeBlock es events block = None) \<longrightarrow>
                confirmSuspicion es c =
                  Some (None, es \<lparr> halted := True \<rparr>,
                        [EvCreatePuller, EvPullLastConfigBlock, EvHalt] @
                        concat (map (\<lambda>seq. [EvPullBlock seq, EvWriteBlock (pullBlock p seq)])
                                  (seq_range (height es) (Number b)))))))
   \<and> (\<forall>pn es' events. confirmSuspicion es c = Some (pn, es', events) \<and> EvHalt \<in> set events \<longrightarrow>
        \<not> evictionSuspicionThreshold es > c \<and> \<not> halted es \<and>
        (\<exists>p b. createPuller es = Inr p \<and> pullLastConfigBlock p = Inr b
            \<and> \<not> Number b + 1 \<le> height es
            \<and> (amIInChannel es b = Some ErrNotInChannel \<or> amIInChannel es b = Some ErrForbidden)))"
proof (intro conjI impI allI)
  assume "evictionSuspicionThreshold es > c \<or> halted es"
  then show "confirmSuspicion es c = Some (None, es, [])"
    by (simp add: confirmSuspicion_def)
next
  assume "\<not> evictionSuspicionThreshold es > c \<and> \<not> halted es
        \<and> createPuller es = Inr p \<and> pullLastConfigBlock p = Inr b" "Number b + 1 \<le> height es"
  then show "confirmSuspicion es c = Some (None, es, [EvCreatePuller, EvPullLastConfigBlock])"
    by (simp add: confirmSuspicion_def)
next
  assume "\<not> evictionSuspicionThreshold es > c \<and> \<not> halted es
        \<and> createPuller es = Inr p \<and> pullLastConfigBlock p = Inr b"
    "\<not> Number b + 1 \<le> height es
           \<and> amIInChannel es b \<noteq> Some ErrNotInChannel \<and> amIInChannel es b \<noteq> Some ErrForbidden"
  then show "confirmSuspicion es c =
             Some (None, es,
               [EvCreatePuller, EvPullLastConfigBlock,
                EvTriggerCatchUp \<lparr> Data = MarshalledBlock b, Metadata = zero_SnapshotMetadata \<rparr>])"
    by (simp add: confirmSuspicion_def MarshalOrPanic_def)
next
  assume a: "\<not> evictionSuspicionThreshold es > c \<and> \<not> halted es
        \<and> createPuller es = Inr p \<and> pullLastConfigBlock p = Inr b"
    "\<not> Number b + 1 \<le> height es
           \<and> (amIInChannel es b = Some ErrNotInChannel \<or> amIInChannel es b = Some ErrForbidden)"
  then show ev: "confirmSuspicion es c =
             Some (fst (pull_and_write es p (seq_range (height es) (Number b))
                          [EvCreatePuller, EvPullLastConfigBlock, EvHalt]),
                   es \<lparr> halted := True \<rparr>,
                   snd (pull_and_write es p (seq_range (height es) (Number b))
                          [EvCreatePuller, EvPullLastConfigBlock, EvHalt]))"
    by (intro confirmSuspicion_evicted) simp_all
  assume "\<forall>events block. writeBlock es events block = None"
  then show "confirmSuspicion es c =
                  Some (None, es \<lparr> halted := True \<rparr>,
                        [EvCreatePuller, EvPullLastConfigBlock, EvHalt] @
                        concat (map (\<lambda>seq. [EvPullBlock seq, EvWriteBlock (pullBlock p seq)])
                                  (seq_range (height es) (Number b))))"
    unfolding ev by (simp add: pull_and_write_all_ok)
next
  fix pn es' events
  assume "confirmSuspicion es c = Some (pn, es', events) \<and> EvHalt \<in> set events"
  then have *: "\<not> evictionSuspicionThreshold es > c \<and> \<not> halted es \<and>
         (\<exists>p b. createPuller es = Inr p \<and> pullLastConfigBlock p = Inr b
            \<and> \<not> Number b + 1 \<le> height es
            \<and> (amIInChannel es b = Some ErrNotInChannel \<or> amIInChannel es b = Some ErrForbidden))"
    using confirmSuspicion_halt_only_if by blast
  from * show "\<not> evictionSuspicionThreshold es > c" by blast
  from * show "\<not> halted es" by blast
  from * show "\<exists>p b. createPuller es = Inr p \<and> pullLastConfigBlock p = Inr b
            \<and> \<not> Number b + 1 \<le> height es
            \<and> (amIInChannel es b = Some ErrNotInChannel \<or> amIInChannel es b = Some ErrForbidden)" by blast
qed

lemma seq_range_48_50: "seq_range 48 50 = [48, 49, 50]"
  by (simp add: seq_range_def upt_rec)

theorem C5_confirmSuspicion_witness:
  "confirmSuspicion evicted_suspector 700 =
     Some (None, evicted_suspector \<lparr> halted := True \<rparr>,
       [EvCreatePuller, EvPullLastConfigBlock, EvHalt,
        EvPullBlock 48, EvWriteBlock (Some (normal_block 48)),
        EvPullBlock 49, EvWriteBlock (Some (normal_block 49)),
        EvPullBlock 50, EvWriteBlock (Some (config_block 50 None))])
   \<and> confirmSuspicion evicted_suspector 599 = Some (None, evicted_suspector, [])
   \<and> confirmSuspicion (evicted_suspector \<lparr> amIInChannel := (\<lambda>block. None) \<rparr>) 700 =
       Some (None, evicted_suspector \<lparr> amIInChannel := (\<lambda>block. None) \<rparr>,
         [EvCreatePuller, EvPullLastConfigBlock,
          EvTriggerCatchUp \<lparr> Data = MarshalledBlock (config_block 50 None),
                             Metadata = zero_SnapshotMetadata \<rparr>])"
proof -
  let ?b = "config_block 50 None"
  have hyp: "\<not> evictionSuspicionThreshold evicted_suspector > 700 \<and> \<not> halted evicted_suspector
        \<and> createPuller evicted_suspector = Inr cluster_puller \<and> pullLastConfigBlock cluster_puller = Inr ?b"
    by (simp add: evicted_suspector_def cluster_puller_def)
  have branch: "\<not> Number ?b + 1 \<le> height evicted_suspector
      \<and> (amIInChannel evicted_suspector ?b = Some ErrNotInChannel \<or> amIInChannel evicted_suspector ?b = Some ErrForbidden)"
    by (simp add: evicted_suspector_def config_block_def)
  have ok: "\<forall>events block. writeBlock evicted_suspector events block = None"
    by (simp add: evicted_suspector_def)
  have "confirmSuspicion evicted_suspector 700 =
      Some (None, evicted_suspector \<lparr> halted := True \<rparr>,
            [EvCreatePuller, EvPullLastConfigBlock, EvHalt] @
            concat (map (\<lambda>seq. [EvPullBlock seq, EvWriteBlock (pullBlock cluster_puller seq)])
                      (seq_range (height evicted_suspector) (Number ?b))))"
    using C5_confirmSuspicion [where es = evicted_suspector and c = 700 and p = cluster_puller and b = ?b] hyp branch ok by blast
  moreover have "seq_range (height evicted_suspector) (Number ?b) = [48, 49, 50]"
    by (simp add: evicted_suspector_def config_block_def seq_range_48_50)
  moreover have "confirmSuspicion evicted_suspector 599 = Some (None, evicted_suspector, [])"
    using C5_confirmSuspicion [where es = evicted_suspector and c = 599 and p = cluster_puller and b = ?b]
    by (simp add: evicted_suspector_def)
  moreover have "confirmSuspicion (evicted_suspector \<lparr> amIInChannel := (\<lambda>block. None) \<rparr>) 700 =
       Some (None, evicted_suspector \<lparr> amIInChannel := (\<lambda>block. None) \<rparr>,
         [EvCreatePuller, EvPullLastConfigBlock,
          EvTriggerCatchUp \<lparr> Data = MarshalledBlock ?b, Metadata = zero_SnapshotMetadata \<rparr>])"
    by (simp add: confirmSuspicion_def evicted_suspector_def cluster_puller_def config_block_def MarshalOrPanic_def)
  ultimately show ?thesis by (simp add: cluster_puller_def)
qed

section \<open>Duplicated certificates\<close>

lemma duplication_loop_None:
  "duplication_loop seen cs = None \<longleftrightarrow>
     (\<forall>c \<in> set cs. certs c \<inter> seen = {}) \<and> sorted_wrt (\<lambda>a b. certs a \<inter> certs b = {}) cs"
proof (induction cs arbitrary: seen)
  case Nil
  then show ?case by simp
next
  case (Cons c cs)
  show ?case
    by (simp add: Let_def Cons.IH) (auto simp: certs_def)
qed


text \<open>
  Claim C6. For every non-nil config metadata \<open>md\<close>, \<^verbatim>\<open>MetadataHasDuplication\<close>
  returns an error if and only if some consenter of \<open>md\<close> is nil, or some certificate
  byte string (client or server, regardless of the type) appears in two different
  consenter slots of \<open>md\<close>.
\<close>

theorem C6_duplication_iff:
  "MetadataHasDuplication (Some md) \<noteq> None \<longleftrightarrow>
     (None \<in> set (ConfigConsenters md) \<or>
      (\<exists>i j a b. i < j \<and> j < length (ConfigConsenters md)
          \<and> ConfigConsenters md ! i = Some a \<and> ConfigConsenters md ! j = Some b
          \<and> {ServerTlsCert a, ClientTlsCert a} \<inter> {ServerTlsCert b, ClientTlsCert b} \<noteq> {}))"
proof (cases "None \<in> set (ConfigConsenters md)")
  case True
  then show ?thesis by (simp add: MetadataHasDuplication_def)
next
  case False
  then obtain cs where cs: "ConfigConsenters md = map Some cs"
    by (metis ex_map_conv not_Some_eq)
  have "MetadataHasDuplication (Some md) \<noteq> None \<longleftrightarrow>
      \<not> sorted_wrt (\<lambda>a b. certs a \<inter> certs b = {}) cs"
    using False by (simp add: MetadataHasDuplication_def cs duplication_loop_None comp_def)
  also have "\<dots> \<longleftrightarrow> (\<exists>i j. i < j \<and> j < length cs \<and> certs (cs ! i) \<inter> certs (cs ! j) \<noteq> {})"
    by (auto simp: sorted_wrt_iff_nth_less)
  also have "\<dots> \<longleftrightarrow> (\<exists>i j a b. i < j \<and> j < length (ConfigConsenters md)
          \<and> ConfigConsenters md ! i = Some a \<and> ConfigConsenters md ! j = Some b
          \<and> {ServerTlsCert a, ClientTlsCert a} \<inter> {ServerTlsCert b, ClientTlsCert b} \<noteq> {})"
  proof -
    have "\<And>i j. i < j \<Longrightarrow> j < length cs \<Longrightarrow> map Some cs ! i = Some (cs ! i) \<and> map Some cs ! j = Some (cs ! j)"
      by simp
    then show ?thesis
      unfolding cs certs_def length_map
      apply (intro iffI)
       apply (elim exE conjE)
      subgoal for i j by (rule exI [of _ i], rule exI [of _ j], rule exI [of _ "cs ! i"], rule exI [of _ "cs ! j"]) simp
      apply (elim exE conjE)
      subgoal for i j a b by (rule exI [of _ i], rule exI [of _ j]) simp
      done
  qed
  finally show ?thesis using False by simp
qed

theorem C6_duplication_iff_witness:
  "MetadataHasDuplication
     (Some \<lparr> ConfigConsenters = [Some consenter1, Some consenter2, Some consenter5_dup], Options = None \<rparr>) \<noteq> None
   \<and> MetadataHasDuplication
     (Some \<lparr> ConfigConsenters = [Some consenter1, Some consenter2, Some consenter5_dup], Options = None \<rparr>)
       = Some (DuplicateConsenter ''client-cert-1'' ''client-cert-5'')
   \<and> MetadataHasDuplication (Some \<lparr> ConfigConsenters = [Some consenter1, None], Options = None \<rparr>)
       = Some NilConsenter
   \<and> MetadataHasDuplication (Some \<lparr> ConfigConsenters = [Some consenter1, Some consenter2], Options = None \<rparr>)
       = None"
proof -
  let ?md = "\<lparr> ConfigConsenters = [Some consenter1, Some consenter2, Some consenter5_dup], Options = None \<rparr>"
  have "\<exists>i j a b. i < j \<and> j < length (ConfigConsenters ?md)
          \<and> ConfigConsenters ?md ! i = Some a \<and> ConfigConsenters ?md ! j = Some b
          \<and> {ServerTlsCert a, ClientTlsCert a} \<inter> {ServerTlsCert b, ClientTlsCert b} \<noteq> {}"
    by (rule exI [of _ 0], rule exI [of _ 2], rule exI [of _ consenter1], rule exI [of _ consenter5_dup])
      (simp add: consenter1_def consenter5_dup_def)
  then have "MetadataHasDuplication (Some ?md) \<noteq> None"
    using C6_duplication_iff [of ?md] by blast
  moreover have "MetadataHasDuplication (Some ?md) = Some (DuplicateConsenter ''client-cert-1'' ''client-cert-5'')"
    by (simp add: MetadataHasDuplication_def consenter1_def consenter2_def consenter5_dup_def)
  moreover have "MetadataHasDuplication (Some \<lparr> ConfigConsenters = [Some consenter1, None], Options = None \<rparr>)
       = Some NilConsenter"
    by (simp add: MetadataHasDuplication_def)
  moreover have "MetadataHasDuplication (Some \<lparr> ConfigConsenters = [Some consenter1, Some consenter2], Options = None \<rparr>)
       = None"
    by (simp add: MetadataHasDuplication_def consenter1_def consenter2_def)
  ultimately show ?thesis by blast
qed

section \<open>The ledger block puller\<close>

text \<open>
  With at least one block in the ledger, \<^verbatim>\<open>PullBlock\<close> reads the ledger exactly for
  the sequence numbers below the height. With an empty ledger the subtraction
  \<^verbatim>\<open>Height() - 1\<close> wraps around to the largest \<^verbatim>\<open>uint64\<close>, and every sequence
  number is read from the ledger.
\<close>

lemma PullBlock_positive_height:
  assumes "Height ledgerPuller \<noteq> 0"
  shows "fst (PullBlock ledgerPuller seq) =
           (if seq < Height ledgerPuller then FromLedger else FromRemotePuller)"
proof -
  have "seq \<le> Height ledgerPuller - 1 \<longleftrightarrow> seq < Height ledgerPuller"
    using assms by unat_arith
  then show ?thesis by (simp add: PullBlock_def Let_def)
qed

lemma PullBlock_zero_height:
  "Height ledgerPuller = 0 \<Longrightarrow> PullBlock ledgerPuller seq = (FromLedger, BlockRetriever ledgerPuller seq)"
  by (simp add: PullBlock_def Let_def)


text \<open>
  Claim C7 says that \<^verbatim>\<open>PullBlock(seq)\<close> reads the local ledger when
  \<open>seq < height()\<close> and fetches from the remote puller otherwise. At height 0 and
  sequence number 0 the code reads the (empty) local ledger, although \<open>0 < 0\<close> is false.
\<close>

theorem C7_empty_ledger_reads_locally:
  "PullBlock \<lparr> Height = 0, BlockRetriever = (\<lambda>seq. None), BlockPuller = pullBlock cluster_puller \<rparr> 0
     = (FromLedger, None)
   \<and> \<not> (0 :: u64) < Height \<lparr> Height = 0, BlockRetriever = (\<lambda>seq. None), BlockPuller = pullBlock cluster_puller \<rparr>
   \<and> pullBlock cluster_puller 0 = Some (normal_block 0)"
  by (simp add: PullBlock_def Let_def cluster_puller_def)

section \<open>Writing blocks\<close>

lemma detectConfChange_frame:
  assumes "detectConfChange c block = Inr (c', mco)"
  shows "lastBlock c' = lastBlock c \<and> ledger c' = ledger c \<and> opts_BlockMetadata c' = opts_BlockMetadata c
         \<and> effects c' = effects c"
  using assms
  by (auto simp: detectConfChange_def Let_def split: sum.splits option.splits if_splits)

lemma configureComm_frame:
  assumes "configureComm c = Inr c'"
  shows "lastBlock c' = lastBlock c \<and> ledger c' = ledger c \<and> opts_BlockMetadata c' = opts_BlockMetadata c"
  using assms by (auto simp: configureComm_def split: sum.splits)

lemma writeConfigBlock_returns:
  assumes "writeConfigBlock c b i = Inr c'"
  shows "lastBlock c' = lastBlock c \<and> RaftIndex (opts_BlockMetadata c') = i
         \<and> ledger c' = ledger c @ [WriteConfigBlock b (Some (opts_BlockMetadata c'))]"
proof (cases "ConfigChannelHeader b")
  case (Inl e)
  with assms show ?thesis by (simp add: writeConfigBlock_def)
next
  case (Inr hdr)
  show ?thesis
  proof (cases hdr)
    case HeaderType_CONFIG
    with Inr assms obtain c2 mco where d: "detectConfChange (c \<lparr> configInflight := False \<rparr>) b = Inr (c2, mco)"
      by (auto simp: writeConfigBlock_def Let_def split: sum.splits)
    note fr = detectConfChange_frame [OF d]
    show ?thesis
    proof (cases mco)
      case None
      with assms Inr HeaderType_CONFIG d fr show ?thesis
        by (auto simp: writeConfigBlock_def Let_def)
    next
      case (Some mc)
      show ?thesis
      proof (cases "ConfChange mc")
        case None
        with assms Inr HeaderType_CONFIG d fr Some show ?thesis
          by (auto simp: writeConfigBlock_def Let_def split: if_splits sum.splits dest!: configureComm_frame)
      next
        case (Some cc)
        with assms Inr HeaderType_CONFIG d fr \<open>mco = Some mc\<close> show ?thesis
          by (auto simp: writeConfigBlock_def Let_def split: if_splits)
      qed
    qed
  next
    case HeaderType_ORDERER_TRANSACTION
    with Inr assms show ?thesis by (auto simp: writeConfigBlock_def Let_def)
  next
    case HeaderType_OTHER
    with Inr assms show ?thesis by (simp add: writeConfigBlock_def Let_def)
  qed
qed

lemma detectConfChange_panic:
  "detectConfChange c block = Inl (p, c') \<Longrightarrow> p \<noteq> BlockOutOfOrder"
  by (auto simp: detectConfChange_def newConfigMetadata_def Let_def
      split: sum.splits option.splits if_splits dest: cmc_panic)

lemma writeConfigBlock_panic:
  assumes "writeConfigBlock c b i = Inl (p, c')"
  shows "p \<noteq> BlockOutOfOrder"
  using assms
  by (auto simp: writeConfigBlock_def Let_def
      split: sum.splits option.splits if_splits HeaderType.splits prod.splits
      dest: detectConfChange_panic)

text \<open>
  Claim C1, as the code has it. For every block \<open>b\<close> and raft index \<open>i\<close>: when
  \<open>b.number < last_block.number + 1\<close>, \<^verbatim>\<open>writeBlock\<close> returns and leaves the chain
  (last block, block metadata, ledger) unchanged; when \<open>b.number > last_block.number + 1\<close>
  it panics, and the block-out-of-order panic occurs in no other case; when
  \<open>b.number = last_block.number + 1\<close> and \<open>b\<close> is not a config block, \<open>b\<close> is appended
  to the ledger, becomes the last block, and \<open>i\<close> is stored as the raft index of the block
  metadata, in the chain and in the ledger; when \<open>b.number = last_block.number + 1\<close> and
  \<open>b\<close> is a config block, the same holds whenever the call returns, and it returns for an
  orderer transaction and for a config block without consensus metadata. The ledger
  changes only when \<open>b.number = last_block.number + 1\<close>.
\<close>

theorem C1_writeBlock:
  "(Number b < Number (lastBlock c) + 1 \<longrightarrow> Chain_writeBlock c b i = Inr c)
   \<and> (Number b > Number (lastBlock c) + 1 \<longrightarrow> Chain_writeBlock c b i = Inl (BlockOutOfOrder, c))
   \<and> ((\<exists>c'. Chain_writeBlock c b i = Inl (BlockOutOfOrder, c')) \<longrightarrow> Number b > Number (lastBlock c) + 1)
   \<and> (Number b = Number (lastBlock c) + 1 \<and> \<not> IsConfigBlock b \<longrightarrow>
        (\<exists>c'. Chain_writeBlock c b i = Inr c'
           \<and> lastBlock c' = b
           \<and> opts_BlockMetadata c' = (opts_BlockMetadata c) \<lparr> RaftIndex := i \<rparr>
           \<and> ledger c' = ledger c @ [WriteBlock b (Some ((opts_BlockMetadata c) \<lparr> RaftIndex := i \<rparr>))]))
   \<and> (Number b = Number (lastBlock c) + 1 \<and> IsConfigBlock b \<longrightarrow>
        (\<forall>c'. Chain_writeBlock c b i = Inr c' \<longrightarrow>
           lastBlock c' = b
           \<and> RaftIndex (opts_BlockMetadata c') = i
           \<and> ledger c' = ledger c @ [WriteConfigBlock b (Some (opts_BlockMetadata c'))])
      \<and> (ConfigChannelHeader b = Inr HeaderType_ORDERER_TRANSACTION
           \<or> ConfigChannelHeader b = Inr HeaderType_CONFIG \<and> ConsensusMetadataFromConfigBlock b = Inr None \<longrightarrow>
           (\<exists>c'. Chain_writeBlock c b i = Inr c'
              \<and> opts_BlockMetadata c' = (opts_BlockMetadata c) \<lparr> RaftIndex := i \<rparr>)))
   \<and> ((\<exists>c'. Chain_writeBlock c b i = Inr c' \<and> ledger c' \<noteq> ledger c) \<longrightarrow>
        Number b = Number (lastBlock c) + 1)"
proof (intro conjI impI allI)
  show "Chain_writeBlock c b i = Inr c" if "Number b < Number (lastBlock c) + 1"
    using that by (auto simp: Chain_writeBlock_def)
  show "Chain_writeBlock c b i = Inl (BlockOutOfOrder, c)" if "Number b > Number (lastBlock c) + 1"
    using that by (simp add: Chain_writeBlock_def)
  show "Number b > Number (lastBlock c) + 1" if "\<exists>c'. Chain_writeBlock c b i = Inl (BlockOutOfOrder, c')"
    using that
    by (auto simp: Chain_writeBlock_def Let_def split: if_splits dest: writeConfigBlock_panic)
  show "\<exists>c'. Chain_writeBlock c b i = Inr c'
           \<and> lastBlock c' = b
           \<and> opts_BlockMetadata c' = (opts_BlockMetadata c) \<lparr> RaftIndex := i \<rparr>
           \<and> ledger c' = ledger c @ [WriteBlock b (Some ((opts_BlockMetadata c) \<lparr> RaftIndex := i \<rparr>))]"
    if "Number b = Number (lastBlock c) + 1 \<and> \<not> IsConfigBlock b"
    using that by (simp add: Chain_writeBlock_def Let_def)
next
  fix c'
  assume h: "Number b = Number (lastBlock c) + 1 \<and> IsConfigBlock b" and r: "Chain_writeBlock c b i = Inr c'"
  let ?c2 = "(if blockInflight c > 0 then c \<lparr> blockInflight := blockInflight c - 1 \<rparr> else c) \<lparr> lastBlock := b \<rparr>"
  from h r have "writeConfigBlock ?c2 b i = Inr c'"
    by (simp add: Chain_writeBlock_def Let_def)
  from writeConfigBlock_returns [OF this]
  have *: "lastBlock c' = b \<and> RaftIndex (opts_BlockMetadata c') = i
      \<and> ledger c' = ledger c @ [WriteConfigBlock b (Some (opts_BlockMetadata c'))]"
    by (simp split: if_splits)
  from * show "lastBlock c' = b" by simp
  from * show "RaftIndex (opts_BlockMetadata c') = i" by simp
  from * show "ledger c' = ledger c @ [WriteConfigBlock b (Some (opts_BlockMetadata c'))]" by simp
next
  assume h: "Number b = Number (lastBlock c) + 1 \<and> IsConfigBlock b"
    and hdr: "ConfigChannelHeader b = Inr HeaderType_ORDERER_TRANSACTION
           \<or> ConfigChannelHeader b = Inr HeaderType_CONFIG \<and> ConsensusMetadataFromConfigBlock b = Inr None"
  then show "\<exists>c'. Chain_writeBlock c b i = Inr c'
              \<and> opts_BlockMetadata c' = (opts_BlockMetadata c) \<lparr> RaftIndex := i \<rparr>"
    by (auto simp: Chain_writeBlock_def writeConfigBlock_def detectConfChange_def newConfigMetadata_def Let_def)
next
  assume "\<exists>c'. Chain_writeBlock c b i = Inr c' \<and> ledger c' \<noteq> ledger c"
  then show "Number b = Number (lastBlock c) + 1"
    by (auto simp: Chain_writeBlock_def Let_def split: if_splits)
qed

theorem C1_writeBlock_witness:
  "Chain_writeBlock chain3 (normal_block 10) 21 =
     Inr (chain3 \<lparr> lastBlock := normal_block 10,
                   opts_BlockMetadata := metadata123 \<lparr> RaftIndex := 21 \<rparr>,
                   ledger := [WriteBlock (normal_block 10) (Some (metadata123 \<lparr> RaftIndex := 21 \<rparr>))] \<rparr>)
   \<and> Chain_writeBlock chain3 (normal_block 9) 21 = Inr chain3
   \<and> Chain_writeBlock chain3 (normal_block 11) 21 = Inl (BlockOutOfOrder, chain3)
   \<and> (\<exists>c'. Chain_writeBlock chain3 (config_block 10 None) 21 = Inr c'
          \<and> opts_BlockMetadata c' = metadata123 \<lparr> RaftIndex := 21 \<rparr>
          \<and> ledger c' = [WriteConfigBlock (config_block 10 None) (Some (metadata123 \<lparr> RaftIndex := 21 \<rparr>))])"
proof -
  have eq: "Number (normal_block 10) = Number (lastBlock chain3) + 1 \<and> \<not> IsConfigBlock (normal_block 10)"
    by (simp add: chain3_def normal_block_def)
  have lo: "Number (normal_block 9) < Number (lastBlock chain3) + 1"
    by (simp add: chain3_def normal_block_def)
  have hi: "Number (normal_block 11) > Number (lastBlock chain3) + 1"
    by (simp add: chain3_def normal_block_def)
  have cfg: "Number (config_block 10 None) = Number (lastBlock chain3) + 1 \<and> IsConfigBlock (config_block 10 None)"
    "ConfigChannelHeader (config_block 10 None) = Inr HeaderType_CONFIG
       \<and> ConsensusMetadataFromConfigBlock (config_block 10 None) = Inr None"
    by (simp_all add: chain3_def normal_block_def config_block_def ConfigChannelHeader_def
        ConsensusMetadataFromConfigBlock_def ConfigEnvelopeFromBlock_def)
  from C1_writeBlock [where c = chain3 and b = "normal_block 10" and i = 21] eq
  obtain c' where "Chain_writeBlock chain3 (normal_block 10) 21 = Inr c'"
    "ledger c' = ledger chain3 @ [WriteBlock (normal_block 10) (Some ((opts_BlockMetadata chain3) \<lparr> RaftIndex := 21 \<rparr>))]"
    by blast
  moreover have "Chain_writeBlock chain3 (normal_block 10) 21 =
     Inr (chain3 \<lparr> lastBlock := normal_block 10,
                   opts_BlockMetadata := metadata123 \<lparr> RaftIndex := 21 \<rparr>,
                   ledger := [WriteBlock (normal_block 10) (Some (metadata123 \<lparr> RaftIndex := 21 \<rparr>))] \<rparr>)"
    by (simp add: Chain_writeBlock_def chain3_def normal_block_def Let_def)
  moreover from C1_writeBlock [where c = chain3 and b = "normal_block 9" and i = 21] lo
  have "Chain_writeBlock chain3 (normal_block 9) 21 = Inr chain3" by blast
  moreover from C1_writeBlock [where c = chain3 and b = "normal_block 11" and i = 21] hi
  have "Chain_writeBlock chain3 (normal_block 11) 21 = Inl (BlockOutOfOrder, chain3)" by blast
  moreover from C1_writeBlock [where c = chain3 and b = "config_block 10 None" and i = 21] cfg
  obtain c'' where c'': "Chain_writeBlock chain3 (config_block 10 None) 21 = Inr c''"
    "opts_BlockMetadata c'' = (opts_BlockMetadata chain3) \<lparr> RaftIndex := 21 \<rparr>"
    "ledger c'' = ledger chain3 @ [WriteConfigBlock (config_block 10 None) (Some (opts_BlockMetadata c''))]"
    by blast
  moreover have "opts_BlockMetadata chain3 = metadata123" "ledger chain3 = []"
    by (simp_all add: chain3_def)
  ultimately show ?thesis by simp
qed

text \<open>
  The claim as stated fails on config blocks: a config block with the expected number
  whose consenter set adds two consenters makes \<^verbatim>\<open>detectConfChange\<close> panic
  (\<^verbatim>\<open>illegal configuration change detected\<close>), so the call is fatal although the number
  is not too high, and the block is not appended although the number is the expected one.
\<close>

theorem C1_counterexample:
  "Chain_writeBlock chain3 (config_block 10 (Some two_added_metadata)) 21 =
     Inl (IllegalConfigurationChange,
          chain3 \<lparr> lastBlock := config_block 10 (Some two_added_metadata), configInflight := False \<rparr>)
   \<and> Number (config_block 10 (Some two_added_metadata)) = Number (lastBlock chain3) + 1
   \<and> \<not> Number (config_block 10 (Some two_added_metadata)) > Number (lastBlock chain3) + 1"
  by (simp add: Chain_writeBlock_def writeConfigBlock_def detectConfChange_def newConfigMetadata_def
      ConsensusMetadataFromConfigBlock_def ConfigEnvelopeFromBlock_def ConfigChannelHeader_def
      ComputeMembershipChanges_def MembershipByCert_def
      chain3_def config_block_def normal_block_def two_added_metadata_def consenter1_def consenter2_def consenter3_def consenter3'_def consenter4_def metadata123_def Let_def)

section \<open>Snapshots\<close>

text \<open>
  Claim C8. When the main loop receives a snapshot whose metadata index is not zero and
  at most the applied index (in particular equal to it), the snapshot is skipped: the
  chain is left as it is (configuration state, applied index, last block, ledger), and
  no block puller is created.
\<close>

theorem C8_stale_snapshot_skipped:
  "Index (Metadata sn) \<noteq> 0 \<and> Index (Metadata sn) \<le> appliedIndex c \<longrightarrow>
     serveRequest_snapshot c sn = Some (Inr c)"
  by (simp add: serveRequest_snapshot_def)


theorem C8_stale_snapshot_skipped_witness:
  "Index (Metadata (snapshot_at 20 (normal_block 10))) \<noteq> 0
   \<and> Index (Metadata (snapshot_at 20 (normal_block 10))) \<le> appliedIndex chain3
   \<and> serveRequest_snapshot chain3 (snapshot_at 20 (normal_block 10)) = Some (Inr chain3)
   \<and> serveRequest_snapshot chain3 (snapshot_at 7 (normal_block 10)) = Some (Inr chain3)"
  using C8_stale_snapshot_skipped [of "snapshot_at 20 (normal_block 10)" chain3]
    C8_stale_snapshot_skipped [of "snapshot_at 7 (normal_block 10)" chain3]
  by (simp add: snapshot_at_def chain3_def)

text \<open>
  For comparison, a snapshot ahead of the applied index and of the last block is caught
  up with: the configuration state and the applied index are taken from it, a puller is
  created, the missing block is pulled and written, and the puller is closed.
\<close>

lemma catchUp_loop_done:
  "\<not> next \<le> bNumber \<Longrightarrow> catchUp_loop c p next bNumber = Some (Inr (None, c))"
  by (subst catchUp_loop.simps) simp

lemma catchUp_loop_step:
  assumes "next \<le> bNumber" and "pullBlock p next = Some block"
    and "catchUp_block (c \<lparr> effects := effects c @ [PullerPullBlock next] \<rparr>) block = Inr c'"
  shows "catchUp_loop c p next bNumber = catchUp_loop c' p (next + 1) bNumber"
  using assms by (subst catchUp_loop.simps) (simp add: Let_def)

lemma catchUp_pulls_missing_block:
  "serveRequest_snapshot chain3 (snapshot_at 25 (normal_block 10)) =
     Some (Inr (chain3 \<lparr> confState := \<lparr> Nodes = [1, 2, 3, 4], Learners = [] \<rparr>, appliedIndex := 25,
                         lastBlock := normal_block 10,
                         ledger := [WriteBlock (normal_block 10) None],
                         effects := [CreatePuller, PullerPullBlock 10, PullerClose] \<rparr>))"
proof -
  let ?c1 = "chain3 \<lparr> confState := \<lparr> Nodes = [1, 2, 3, 4], Learners = [] \<rparr>, appliedIndex := 25 \<rparr>"
  let ?c0 = "?c1 \<lparr> effects := effects ?c1 @ [CreatePuller] \<rparr>"
  let ?c' = "?c0 \<lparr> effects := [CreatePuller, PullerPullBlock 10],
                    ledger := [WriteBlock (normal_block 10) None], lastBlock := normal_block 10 \<rparr>"
  have blk: "catchUp_block (?c0 \<lparr> effects := effects ?c0 @ [PullerPullBlock 10] \<rparr>) (normal_block 10) = Inr ?c'"
    by (simp add: catchUp_block_def normal_block_def chain3_def)
  have "catchUp_loop ?c0 cluster_puller 10 10 = catchUp_loop ?c' cluster_puller (10 + 1) 10"
    by (rule catchUp_loop_step [OF _ _ blk]) (simp_all add: cluster_puller_def)
  also have "\<dots> = Some (Inr (None, ?c'))"
    by (rule catchUp_loop_done) simp
  finally show ?thesis
    by (simp add: serveRequest_snapshot_def snapshot_at_def catchUp_def UnmarshalBlock_def Let_def
        chain3_def normal_block_def)
qed


section \<open>The errored channel\<close>

text \<open>
  \<^verbatim>\<open>errorC\<close> is made in \<^verbatim>\<open>NewChain\<close>, closed in \<^verbatim>\<open>Start\<close>, replaced and closed
  in the handling of a new soft state, and closed when the main loop stops; no other
  place of chain.go assigns or closes it.
\<close>

lemma close_chan_Inr:
  assumes "close_chan c ch = Inr c'"
  shows "c' = c \<lparr> channels := (channels c)[ch := True] \<rparr> \<and> ch < length (channels c) \<and> \<not> channels c ! ch"
  using assms by (auto simp: close_chan_def split: if_splits)

lemma close_chan_closed:
  "close_chan c ch = Inr c' \<Longrightarrow> chan_closed c' ch"
  by (auto simp: chan_closed_def dest!: close_chan_Inr)

lemma becomeLeader_frame:
  assumes "becomeLeader c l = Inr (c', l')"
  shows "channels c' = channels c \<and> errorC c' = errorC c \<and> opts_BlockMetadata c' = opts_BlockMetadata c
         \<and> soft l' = soft l \<and> raftID c' = raftID c"
  using assms
  by (auto simp: becomeLeader_def Let_def split: sum.splits option.splits)

lemma becomeFollower_frame:
  assumes "becomeFollower c l = (c', l')"
  shows "channels c' = channels c \<and> errorC c' = errorC c \<and> opts_BlockMetadata c' = opts_BlockMetadata c
         \<and> soft l' = soft l \<and> raftID c' = raftID c"
  using assms
  by (auto simp: becomeFollower_def Let_def split: option.splits)

lemma leaderChanged_frame:
  assumes "leaderChanged c l newLeader = Inr (c', l')"
  shows "channels c' = channels c \<and> errorC c' = errorC c \<and> opts_BlockMetadata c' = opts_BlockMetadata c
         \<and> soft l' = soft l"
proof (cases "newLeader \<noteq> Lead (soft l)")
  case False
  with assms show ?thesis by (simp add: leaderChanged_def)
next
  case True
  let ?c1 = "c \<lparr> lastKnownLeader := newLeader \<rparr>"
  let ?r = "if newLeader = raftID ?c1 then becomeLeader ?c1 l else Inr (?c1, l)"
  from assms True have unf:
    "(case ?r of Inl pc \<Rightarrow> Inl pc
      | Inr (c2, l2) \<Rightarrow> if Lead (soft l) = raftID c2 then Inr (becomeFollower c2 l2) else Inr (c2, l2))
     = Inr (c', l')"
    by (simp add: leaderChanged_def Let_def)
  show ?thesis
  proof (cases ?r)
    case (Inl pc)
    with unf show ?thesis by simp
  next
    case (Inr p)
    obtain c2 l2 where p: "p = (c2, l2)" by (cases p)
    have f1: "channels c2 = channels c \<and> errorC c2 = errorC c \<and> opts_BlockMetadata c2 = opts_BlockMetadata c
         \<and> soft l2 = soft l"
      using Inr p becomeLeader_frame [of ?c1 l c2 l2] by (auto split: if_splits)
    have s2: "(if Lead (soft l) = raftID c2 then Inr (becomeFollower c2 l2) else Inr (c2, l2))
        = (Inr (c', l') :: (Chain \<times> serve_locals) result)"
      using unf unfolding Inr p sum.case prod.case .
    have f2: "channels c' = channels c2 \<and> errorC c' = errorC c2 \<and> opts_BlockMetadata c' = opts_BlockMetadata c2
         \<and> soft l' = soft l2"
      using s2 becomeFollower_frame [of c2 l2 c' l'] by (auto split: if_splits)
    from f1 f2 show ?thesis by simp
  qed
qed

text \<open>
  What the handling of a new soft state does to the errored channel, in full: the channel
  is replaced by a new one when a leader is found or the node quits candidate state, and
  the channel then in place is closed, if it is still open, when the node is a candidate
  or sees no leader and there are more than two consenters.
\<close>

lemma serveRequest_soft_errorC:
  assumes "serveRequest_soft c l s = Inr (c', l')"
  defines "replaced \<equiv> (Lead (soft l) = 0 \<and> Lead s \<noteq> 0) \<or> (isCandidate (RaftState (soft l)) \<and> \<not> isCandidate (RaftState s))"
  defines "leaderless \<equiv> isCandidate (RaftState s) \<or> Lead s = 0"
  shows "errorC c' = (if replaced then length (channels c) else errorC c)"
    and "opts_BlockMetadata c' = opts_BlockMetadata c"
    and "chan_closed c' (errorC c') \<longleftrightarrow>
           (\<not> replaced \<and> chan_closed c (errorC c)) \<or> (leaderless \<and> 2 < length (Consenters (opts_BlockMetadata c)))"
proof -
  have "\<exists>c3 l3. leaderChanged c l (Lead s) = Inr (c3, l3)"
    using assms(1) by (cases "leaderChanged c l (Lead s)") (auto simp: serveRequest_soft_def Let_def)
  then obtain c3 l3 where lc: "leaderChanged c l (Lead s) = Inr (c3, l3)" by blast
  note fr = leaderChanged_frame [OF lc]
  define c4 where "c4 = (if replaced then (case make_chan c3 of (ch, c') \<Rightarrow> c' \<lparr> errorC := ch \<rparr>) else c3)"
  have c4: "errorC c4 = (if replaced then length (channels c) else errorC c)"
    "channels c4 = (if replaced then channels c @ [False] else channels c)"
    "opts_BlockMetadata c4 = opts_BlockMetadata c"
    using fr by (auto simp: c4_def make_chan_def)
  let ?r = "if leaderless then
                      (let c5 = c4 \<lparr> lastKnownLeader := 0 \<rparr> in
                       if chan_closed c5 (errorC c5) then Inr c5
                       else
                         (let nodeCount = length (Consenters (opts_BlockMetadata c5)) in
                          if nodeCount > 2 then close_chan c5 (errorC c5) else Inr c5))
                    else Inr c4"
  have fr_soft: "soft l3 = soft l" using fr by simp
  have unf0: "serveRequest_soft c l s = (case ?r of Inl pc \<Rightarrow> Inl pc
      | Inr c6 \<Rightarrow> Inr (c6 \<lparr> effects := effects c6 @ [ObserveSoftState \<lparr> Lead = Lead s, RaftState = RaftState s \<rparr>] \<rparr>,
                        l3 \<lparr> soft := \<lparr> Lead = Lead s, RaftState = RaftState s \<rparr> \<rparr>))"
    unfolding serveRequest_soft_def c4_def replaced_def leaderless_def Let_def lc
    by (simp only: sum.case prod.case fr_soft)
  have unf: "(case ?r of Inl pc \<Rightarrow> Inl pc
      | Inr c6 \<Rightarrow> Inr (c6 \<lparr> effects := effects c6 @ [ObserveSoftState \<lparr> Lead = Lead s, RaftState = RaftState s \<rparr>] \<rparr>,
                        l3 \<lparr> soft := \<lparr> Lead = Lead s, RaftState = RaftState s \<rparr> \<rparr>)) = Inr (c', l')"
    using assms(1) unfolding unf0 .
  have "\<exists>c6. ?r = Inr c6" using unf by (cases ?r) auto
  then obtain c6 where c6: "?r = Inr c6" by blast
  have c': "c' = c6 \<lparr> effects := effects c6 @ [ObserveSoftState \<lparr> Lead = Lead s, RaftState = RaftState s \<rparr>] \<rparr>"
    using unf unfolding c6 by simp
  have c6e: "errorC c6 = errorC c4 \<and> opts_BlockMetadata c6 = opts_BlockMetadata c4"
    using c6 by (auto simp: Let_def split: if_splits dest!: close_chan_Inr)
  show "errorC c' = (if replaced then length (channels c) else errorC c)"
    using c' c6e c4 by simp
  show "opts_BlockMetadata c' = opts_BlockMetadata c"
    using c' c6e c4 by simp
  have closed4: "chan_closed c4 (errorC c4) \<longleftrightarrow> \<not> replaced \<and> chan_closed c (errorC c)"
    using c4 by (auto simp: chan_closed_def nth_append)
  have "chan_closed c6 (errorC c6) \<longleftrightarrow>
      chan_closed c4 (errorC c4) \<or> (leaderless \<and> 2 < length (Consenters (opts_BlockMetadata c)))"
    using c6 c4(3)
    by (auto simp: Let_def chan_closed_def split: if_splits dest!: close_chan_Inr)
  then show "chan_closed c' (errorC c') \<longleftrightarrow>
           (\<not> replaced \<and> chan_closed c (errorC c)) \<or> (leaderless \<and> 2 < length (Consenters (opts_BlockMetadata c)))"
    using closed4 c' c6e by (simp add: chan_closed_def)
qed

lemma Start_closes_errorC:
  assumes "configureComm c = Inr c1" and "Start c = Inr c'"
  shows "chan_closed c' (errorC c') \<and> errorC c' = errorC c \<and> chan_closed c' (startC c')
         \<and> \<not> chan_closed c (errorC c) \<and> opts_BlockMetadata c' = opts_BlockMetadata c"
proof -
  have e1: "errorC c1 = errorC c \<and> startC c1 = startC c \<and> channels c1 = channels c
      \<and> opts_BlockMetadata c1 = opts_BlockMetadata c"
    using assms(1) by (auto simp: configureComm_def split: sum.splits)
  have "\<exists>m c3 c4.
    close_chan (c1 \<lparr> effects := effects c1 @ [NodeStart (fresh c1) (support_Height (env c1) > 1) m] \<rparr>) (startC c1) = Inr c3
    \<and> close_chan c3 (errorC c3) = Inr c4
    \<and> c' = c4 \<lparr> effects := effects c4 @ [GoGc, GoServeRequest, PeriodicCheckerRun] \<rparr>"
    using assms by (auto simp: Start_def Let_def split: sum.splits if_splits)
  then obtain m c3 c4 where
    c3: "close_chan (c1 \<lparr> effects := effects c1 @ [NodeStart (fresh c1) (support_Height (env c1) > 1) m] \<rparr>) (startC c1) = Inr c3"
    and c4: "close_chan c3 (errorC c3) = Inr c4"
    and c': "c' = c4 \<lparr> effects := effects c4 @ [GoGc, GoServeRequest, PeriodicCheckerRun] \<rparr>"
    by blast
  from close_chan_Inr [OF c3] close_chan_Inr [OF c4] c' e1
  show ?thesis
    by (auto simp: chan_closed_def nth_list_update)
qed

lemma Start_returns:
  assumes "configureComm c = Inr c1"
    and "support_Height (env c) \<le> 1 \<or> \<not> Kafka2RaftMigration (env c) \<or> (\<exists>n. LastConfigIndex (lastBlock c) = Inr n)"
    and "startC c < length (channels c)" "errorC c < length (channels c)"
    and "\<not> channels c ! startC c" "\<not> channels c ! errorC c" "startC c \<noteq> errorC c"
  shows "\<exists>c'. Start c = Inr c'"
proof -
  have e1: "errorC c1 = errorC c \<and> startC c1 = startC c \<and> channels c1 = channels c
      \<and> env c1 = env c \<and> lastBlock c1 = lastBlock c"
    using assms(1) by (auto simp: configureComm_def split: sum.splits)
  have "\<exists>m. (if support_Height (env c1) > 1 then detectMigration c1 else Inr False) = Inr m"
    using assms(2) e1 by (auto simp: detectMigration_def split: sum.splits)
  then obtain m where m: "(if support_Height (env c1) > 1 then detectMigration c1 else Inr False) = Inr m"
    by blast
  show ?thesis
    using assms(1,3-) e1 m
    by (simp add: Start_def Let_def close_chan_def)
qed

lemma serveRequest_done_closes:
  assumes "serveRequest_done c l = Inr c'"
  shows "chan_closed c' (errorC c') \<and> errorC c' = errorC c"
  using assms
  by (auto simp: serveRequest_done_def Let_def chan_closed_def
      split: option.splits if_splits sum.splits dest!: close_chan_Inr)

text \<open>
  With at most two consenters, an open errored channel stays open (or is replaced by an
  open one) over any sequence of new soft states.
\<close>

lemma serve_soft_events_small_cluster:
  assumes "serve_soft_events c l ss = Inr (c', l')"
    and "length (Consenters (opts_BlockMetadata c)) \<le> 2"
    and "\<not> chan_closed c (Errored c)"
  shows "\<not> chan_closed c' (Errored c') \<and> opts_BlockMetadata c' = opts_BlockMetadata c"
  using assms
proof (induction ss arbitrary: c l)
  case Nil
  then show ?case by simp
next
  case (Cons s ss)
  show ?case
  proof (cases "serveRequest_soft c l s")
    case (Inl pc)
    with Cons.prems(1) show ?thesis by simp
  next
    case (Inr p)
    obtain c1 l1 where p: "p = (c1, l1)" by (cases p)
    note r = Inr [unfolded p]
    note e = serveRequest_soft_errorC [OF r]
    have open1: "\<not> chan_closed c1 (Errored c1)"
      using e(3) Cons.prems(2,3) by (auto simp: Errored_def)
    have md: "opts_BlockMetadata c1 = opts_BlockMetadata c" by (rule e(2))
    from Cons.prems(1) r have "serve_soft_events c1 l1 ss = Inr (c', l')" by simp
    from Cons.IH [OF this] Cons.prems(2) open1 md show ?thesis by simp
  qed
qed


text \<open>The handlers on the concrete chains.\<close>

lemma configureComm_chain1: "configureComm chain1 = Inr (chain1 \<lparr> effects := [Configure ''mychannel'' []] \<rparr>)"
  by (simp add: configureComm_def remotePeers_def chain1_def chain3_def)

lemma Start_chain1: "Start chain1 = Inr started1"
  unfolding Start_def configureComm_chain1
  by (simp add: Let_def close_chan_def chain1_def chain3_def started1_def detectMigration_def)

lemma configureComm_chain3: "configureComm chain3 = Inr (chain3 \<lparr> effects := [Configure ''mychannel'' remote23] \<rparr>)"
  by (simp add: configureComm_def remotePeers_def pemToDER_def chain3_def remote23_def consenter1_def consenter2_def consenter3_def metadata123_def)

lemma Start_chain3: "Start chain3 = Inr started3"
  unfolding Start_def configureComm_chain3
  by (simp add: Let_def close_chan_def chain3_def started3_def detectMigration_def)

lemma leaderChanged_started3:
  "leaderChanged started3 locals0 2 = Inr (started3 \<lparr> lastKnownLeader := 2 \<rparr>, locals0)"
  by (simp add: leaderChanged_def Let_def started3_def chain3_def locals0_def)

lemma soft_found3:
  "serveRequest_soft started3 locals0 leader2 = Inr (found3, locals0 \<lparr> soft := leader2 \<rparr>)"
  unfolding serveRequest_soft_def
  by (simp add: leader2_def leaderChanged_started3 Let_def)
    (simp add: locals0_def isCandidate_def make_chan_def started3_def found3_def chain3_def leader2_def)

lemma leaderChanged_found3:
  "leaderChanged found3 (locals0 \<lparr> soft := leader2 \<rparr>) 0 =
     Inr (found3 \<lparr> lastKnownLeader := 0 \<rparr>, locals0 \<lparr> soft := leader2 \<rparr>)"
  by (simp add: leaderChanged_def Let_def found3_def started3_def chain3_def locals0_def leader2_def)

lemma soft_lost3:
  "serveRequest_soft found3 (locals0 \<lparr> soft := leader2 \<rparr>) no_leader =
     Inr (lost3, locals0 \<lparr> soft := no_leader \<rparr>)"
  unfolding serveRequest_soft_def
  by (simp add: no_leader_def leaderChanged_found3 Let_def)
    (simp add: locals0_def isCandidate_def close_chan_def chan_closed_def Let_def
      started3_def found3_def lost3_def chain3_def leader2_def no_leader_def consenter1_def consenter2_def consenter3_def metadata123_def)


lemma soft_chain1_no_leader:
  "serveRequest_soft chain1 locals0 no_leader =
     Inr (chain1 \<lparr> effects := [ObserveSoftState no_leader] \<rparr>, locals0 \<lparr> soft := no_leader \<rparr>)"
proof -
  have lc: "leaderChanged chain1 locals0 0 = Inr (chain1, locals0)"
    by (simp add: leaderChanged_def locals0_def)
  show ?thesis
    unfolding serveRequest_soft_def
    by (simp add: no_leader_def lc Let_def)
      (simp add: locals0_def isCandidate_def chan_closed_def Let_def chain1_def chain3_def no_leader_def)
qed


text \<open>
  Claim C9, as the code has it. The handling of a new soft state closes the channel
  returned by \<^verbatim>\<open>Errored()\<close> only when the node is a candidate or sees no leader and the
  consenter set has more than two nodes, and then it does; with one or two consenters it
  never closes an open errored channel, over any sequence of new soft states. Apart from
  that, \<^verbatim>\<open>Start\<close> closes the errored channel (open until then) for every size of the
  consenter set, and the main loop closes it when it stops.
\<close>

theorem C9_errored_closed:
  "(\<forall>c' l'. serveRequest_soft c l s = Inr (c', l') \<longrightarrow>
       (chan_closed c' (Errored c') \<and> \<not> (Errored c' = Errored c \<and> chan_closed c (Errored c)) \<longrightarrow>
          (isCandidate (RaftState s) \<or> Lead s = 0)
          \<and> 2 < length (Consenters (opts_BlockMetadata c)))
     \<and> (length (Consenters (opts_BlockMetadata c)) \<le> 2 \<and> \<not> chan_closed c (Errored c) \<longrightarrow>
          \<not> chan_closed c' (Errored c'))
     \<and> ((isCandidate (RaftState s) \<or> Lead s = 0)
          \<and> 2 < length (Consenters (opts_BlockMetadata c)) \<longrightarrow>
          chan_closed c' (Errored c')))
   \<and> (\<forall>c1 c'. configureComm c = Inr c1 \<and> Start c = Inr c' \<longrightarrow>
        \<not> chan_closed c (Errored c) \<and> chan_closed c' (Errored c'))
   \<and> (\<forall>c'. serveRequest_done c l = Inr c' \<longrightarrow> chan_closed c' (Errored c'))
   \<and> (\<forall>c' l'. serve_soft_events c l ss = Inr (c', l')
          \<and> length (Consenters (opts_BlockMetadata c)) \<le> 2 \<and> \<not> chan_closed c (Errored c) \<longrightarrow>
          \<not> chan_closed c' (Errored c'))"
proof (intro conjI allI impI)
  fix c' l'
  assume r: "serveRequest_soft c l s = Inr (c', l')"
  note e = serveRequest_soft_errorC [OF r]
  {
    assume h: "chan_closed c' (Errored c') \<and> \<not> (Errored c' = Errored c \<and> chan_closed c (Errored c))"
    then have *: "(isCandidate (RaftState s) \<or> Lead s = 0)
          \<and> 2 < length (Consenters (opts_BlockMetadata c))"
      using e(1) e(3) by (auto simp: Errored_def split: if_splits)
    from * show "isCandidate (RaftState s) \<or> Lead s = 0" by simp
    from * show "2 < length (Consenters (opts_BlockMetadata c))" by simp
  }
  show "\<not> chan_closed c' (Errored c')"
    if "length (Consenters (opts_BlockMetadata c)) \<le> 2 \<and> \<not> chan_closed c (Errored c)"
    using that e(3) by (auto simp: Errored_def)
  show "chan_closed c' (Errored c')"
    if "(isCandidate (RaftState s) \<or> Lead s = 0) \<and> 2 < length (Consenters (opts_BlockMetadata c))"
    using that e(3) by (auto simp: Errored_def)
next
  fix c1 c'
  assume a: "configureComm c = Inr c1 \<and> Start c = Inr c'"
  then have *: "chan_closed c' (errorC c') \<and> errorC c' = errorC c \<and> \<not> chan_closed c (errorC c)"
    using Start_closes_errorC [of c c1 c'] by auto
  from * show "\<not> chan_closed c (Errored c)" by (simp add: Errored_def)
  from * show "chan_closed c' (Errored c')" unfolding Errored_def by blast
next
  fix c'
  assume "serveRequest_done c l = Inr c'"
  then show "chan_closed c' (Errored c')"
    unfolding Errored_def using serveRequest_done_closes by blast
next
  fix c' l'
  assume "serve_soft_events c l ss = Inr (c', l')
          \<and> length (Consenters (opts_BlockMetadata c)) \<le> 2 \<and> \<not> chan_closed c (Errored c)"
  then show "\<not> chan_closed c' (Errored c')"
    using serve_soft_events_small_cluster by blast
qed

theorem C9_errored_closed_witness:
  "serveRequest_soft found3 (locals0 \<lparr> soft := leader2 \<rparr>) no_leader =
     Inr (lost3, locals0 \<lparr> soft := no_leader \<rparr>)
   \<and> Lead no_leader = 0
   \<and> length (Consenters (opts_BlockMetadata found3)) = 3
   \<and> \<not> chan_closed found3 (Errored found3)
   \<and> chan_closed lost3 (Errored lost3)
   \<and> serveRequest_soft chain1 locals0 no_leader =
       Inr (chain1 \<lparr> effects := [ObserveSoftState no_leader] \<rparr>, locals0 \<lparr> soft := no_leader \<rparr>)
   \<and> length (Consenters (opts_BlockMetadata chain1)) = 1
   \<and> \<not> chan_closed chain1 (Errored chain1)
   \<and> \<not> chan_closed (chain1 \<lparr> effects := [ObserveSoftState no_leader] \<rparr>)
          (Errored (chain1 \<lparr> effects := [ObserveSoftState no_leader] \<rparr>))"
proof -
  have n3: "length (Consenters (opts_BlockMetadata found3)) = 3" "Lead no_leader = 0"
    by (simp_all add: found3_def started3_def chain3_def metadata123_def no_leader_def)
  have open3: "\<not> chan_closed found3 (Errored found3)"
    by (simp add: chan_closed_def Errored_def found3_def started3_def chain3_def)
  have n1: "length (Consenters (opts_BlockMetadata chain1)) = 1" "\<not> chan_closed chain1 (Errored chain1)"
    by (simp_all add: chan_closed_def Errored_def chain1_def chain3_def)
  from C9_errored_closed [where c = found3 and l = "locals0 \<lparr> soft := leader2 \<rparr>" and s = no_leader]
    soft_lost3 n3
  have "chan_closed lost3 (Errored lost3)" by simp
  moreover
  from C9_errored_closed [where c = chain1 and l = locals0 and s = no_leader]
    soft_chain1_no_leader n1
  have "\<not> chan_closed (chain1 \<lparr> effects := [ObserveSoftState no_leader] \<rparr>)
          (Errored (chain1 \<lparr> effects := [ObserveSoftState no_leader] \<rparr>))" by simp
  ultimately show ?thesis
    using soft_lost3 soft_chain1_no_leader n3 open3 n1 by simp
qed


text \<open>
  The claim as stated fails at the start: on a chain with a single consenter,
  \<^verbatim>\<open>Start\<close> closes the errored channel.
\<close>

theorem C9_counterexample:
  "\<not> chan_closed chain1 (Errored chain1)
   \<and> Start chain1 = Inr started1
   \<and> chan_closed started1 (Errored started1)
   \<and> length (Consenters (opts_BlockMetadata chain1)) = 1"
  by (simp add: Start_chain1) (simp add: chan_closed_def Errored_def chain1_def chain3_def started1_def)


text \<open>
  Claim C10. After \<^verbatim>\<open>Start\<close> has returned, having configured the communication, the
  channel returned by \<^verbatim>\<open>Errored()\<close> is closed, whatever the number of consenters, and
  it is the channel that \<^verbatim>\<open>Errored()\<close> returned before; and \<^verbatim>\<open>Start\<close> does
  return so on a new chain. The errored channel is replaced only in the handling of a
  new soft state, only when a leader is found or the node quits candidate state, and
  then by a channel made anew, which is open unless the same handling closes it (the
  node is left without a leader or a candidate, with more than two consenters).
\<close>

theorem C10_Start_closes_errorC:
  "(\<forall>c1 c'. configureComm c = Inr c1 \<and> Start c = Inr c' \<longrightarrow>
       chan_closed c' (Errored c') \<and> Errored c' = Errored c)
   \<and> ((\<exists>c1. configureComm c = Inr c1)
        \<and> (support_Height (env c) \<le> 1 \<or> \<not> Kafka2RaftMigration (env c)
             \<or> (\<exists>n. LastConfigIndex (lastBlock c) = Inr n))
        \<and> startC c < length (channels c) \<and> errorC c < length (channels c)
        \<and> \<not> channels c ! startC c \<and> \<not> channels c ! errorC c \<and> startC c \<noteq> errorC c \<longrightarrow>
        (\<exists>c'. Start c = Inr c' \<and> chan_closed c' (Errored c')))
   \<and> (\<forall>c' l'. serveRequest_soft c l s = Inr (c', l') \<longrightarrow>
        (Errored c' \<noteq> Errored c \<longrightarrow>
           (Lead (soft l) = 0 \<and> Lead s \<noteq> 0)
           \<or> (isCandidate (RaftState (soft l)) \<and> \<not> isCandidate (RaftState s)))
      \<and> ((Lead (soft l) = 0 \<and> Lead s \<noteq> 0)
           \<or> (isCandidate (RaftState (soft l)) \<and> \<not> isCandidate (RaftState s)) \<longrightarrow>
           Errored c' = length (channels c)
           \<and> (chan_closed c' (Errored c') \<longleftrightarrow>
                (isCandidate (RaftState s) \<or> Lead s = 0)
                \<and> 2 < length (Consenters (opts_BlockMetadata c)))))
   \<and> (\<forall>c'. serveRequest_done c l = Inr c' \<longrightarrow> Errored c' = Errored c)"
proof (intro conjI allI impI)
  fix c1 c'
  assume a: "configureComm c = Inr c1 \<and> Start c = Inr c'"
  then have *: "chan_closed c' (errorC c') \<and> errorC c' = errorC c"
    using Start_closes_errorC [of c c1 c'] by auto
  from * show "chan_closed c' (Errored c')" unfolding Errored_def by blast
  from * show "Errored c' = Errored c" by (simp add: Errored_def)
next
  assume a: "(\<exists>c1. configureComm c = Inr c1)
        \<and> (support_Height (env c) \<le> 1 \<or> \<not> Kafka2RaftMigration (env c)
             \<or> (\<exists>n. LastConfigIndex (lastBlock c) = Inr n))
        \<and> startC c < length (channels c) \<and> errorC c < length (channels c)
        \<and> \<not> channels c ! startC c \<and> \<not> channels c ! errorC c \<and> startC c \<noteq> errorC c"
  then obtain c1 where c1: "configureComm c = Inr c1" by blast
  from a obtain c' where c': "Start c = Inr c'"
    using Start_returns [OF c1] by blast
  from Start_closes_errorC [OF c1 c'] c'
  show "\<exists>c'. Start c = Inr c' \<and> chan_closed c' (Errored c')"
    by (auto simp: Errored_def)
next
  fix c' l'
  assume r: "serveRequest_soft c l s = Inr (c', l')"
  note e = serveRequest_soft_errorC [OF r]
  show "(Lead (soft l) = 0 \<and> Lead s \<noteq> 0)
           \<or> (isCandidate (RaftState (soft l)) \<and> \<not> isCandidate (RaftState s))"
    if "Errored c' \<noteq> Errored c"
    using that e(1) by (auto simp: Errored_def split: if_splits)
  assume rep: "(Lead (soft l) = 0 \<and> Lead s \<noteq> 0)
           \<or> (isCandidate (RaftState (soft l)) \<and> \<not> isCandidate (RaftState s))"
  show "Errored c' = length (channels c)"
    using rep e(1) by (simp add: Errored_def)
  show "chan_closed c' (Errored c') \<longleftrightarrow>
                (isCandidate (RaftState s) \<or> Lead s = 0)
                \<and> 2 < length (Consenters (opts_BlockMetadata c))"
    using rep e(3) by (simp add: Errored_def)
next
  fix c'
  assume "serveRequest_done c l = Inr c'"
  then show "Errored c' = Errored c"
    unfolding Errored_def using serveRequest_done_closes by blast
qed


theorem C10_Start_closes_errorC_witness:
  "Start chain3 = Inr started3
   \<and> chan_closed started3 (Errored started3)
   \<and> length (Consenters (opts_BlockMetadata chain3)) = 3
   \<and> Start chain1 = Inr started1
   \<and> chan_closed started1 (Errored started1)
   \<and> length (Consenters (opts_BlockMetadata chain1)) = 1
   \<and> serveRequest_soft started3 locals0 leader2 = Inr (found3, locals0 \<lparr> soft := leader2 \<rparr>)
   \<and> Errored started3 = 2 \<and> Errored found3 = 3
   \<and> \<not> chan_closed found3 (Errored found3)"
proof -
  from C10_Start_closes_errorC [where c = chain3] configureComm_chain3 Start_chain3
  have "chan_closed started3 (Errored started3)" by blast
  moreover
  from C10_Start_closes_errorC [where c = chain1] configureComm_chain1 Start_chain1
  have "chan_closed started1 (Errored started1)" by blast
  moreover
  have "Lead (soft locals0) = 0 \<and> Lead leader2 \<noteq> 0" "\<not> isCandidate (RaftState leader2)"
    by (simp_all add: locals0_def leader2_def isCandidate_def)
  with C10_Start_closes_errorC [where c = started3 and l = locals0 and s = leader2] soft_found3
  have "\<not> chan_closed found3 (Errored found3)" by blast
  moreover have "Errored started3 = 2" "Errored found3 = 3"
    "length (Consenters (opts_BlockMetadata chain3)) = 3" "length (Consenters (opts_BlockMetadata chain1)) = 1"
    by (simp_all add: Errored_def started3_def found3_def chain3_def chain1_def metadata123_def)
  ultimately show ?thesis
    using Start_chain3 Start_chain1 soft_found3 by simp
qed

end
